theory Spec2Isabelle
  imports Main "HOL-Library.Word"
begin

unbundle bit_operations_syntax

section \<open>The IPVS statistics plugin (src/ipvs.c)\<close>

text \<open>
  The plugin opens a raw socket, asks the kernel once for the global IPVS information,
  and on every read cycle fetches the table of virtual services, for each service the
  table of its real servers, and dispatches three value lists per service and three per
  real server. The embedding follows the C file function by function. The process state
  (the static variables, the log, the dispatched value lists and the calls made to the
  allocator and the kernel) is a record that every function takes and returns; the
  answers of the allocator and of the kernel are a second record, \<open>world\<close>, that the
  functions only read; the constants of the build are a third, \<open>platform\<close>.
\<close>

subsection \<open>Constants of the build\<close>

datatype byte_order = Little_endian | Big_endian

text \<open>
  \<open>DATA_MAX_NAME_LEN\<close> (plugin.h), the \<open>sizeof\<close> of the four kernel structures
  (ip\_vs.h), the byte order of the host and the globals \<open>hostname_g\<close> and
  \<open>interval_g\<close> of the daemon are declared outside src/ipvs.c: they are parameters.
\<close>

record platform =
  host_order :: byte_order
  DATA_MAX_NAME_LEN :: nat
  sizeof_get_services :: nat
  sizeof_service_entry :: nat
  sizeof_get_dests :: nat
  sizeof_dest_entry :: nat
  hostname_g :: string
  interval_g :: int

definition IPPROTO_TCP :: "16 word" where "IPPROTO_TCP = 6"
definition IPPROTO_UDP :: "16 word" where "IPPROTO_UDP = 17"

definition EPERM :: int where "EPERM = 1"
definition ESRCH :: int where "ESRCH = 3"
definition ENOMEM :: int where "ENOMEM = 12"
definition EINVAL :: int where "EINVAL = 22"
definition ENOPROTOOPT :: int where "ENOPROTOOPT = 92"

subsection \<open>Kernel structures\<close>

text \<open>
  The fields of \<open>struct ip_vs_stats_user\<close>, \<open>struct ip_vs_service_entry\<close>,
  \<open>struct ip_vs_dest_entry\<close>, \<open>struct ip_vs_get_services\<close>,
  \<open>struct ip_vs_get_dests\<close> and \<open>struct ip_vs_getinfo\<close> that the plugin reads or
  writes, with the widths of the kernel header. Addresses and ports are kept as the host
  reads the field, that is as the machine word whose bytes in memory are in network order.
  The \<open>entrytable\<close> of a response is the whole entry area of the buffer after the call.
\<close>

type_synonym counter_t = "64 word"

record ip_vs_stats_user =
  conns :: "32 word"
  inpkts :: "32 word"
  outpkts :: "32 word"
  inbytes :: "64 word"
  outbytes :: "64 word"

record ip_vs_service_entry =
  se_protocol :: "16 word"
  se_addr :: "32 word"
  se_port :: "16 word"
  se_fwmark :: "32 word"
  se_num_dests :: "32 word"
  se_stats :: ip_vs_stats_user

record ip_vs_dest_entry =
  de_addr :: "32 word"
  de_port :: "16 word"
  de_stats :: ip_vs_stats_user

record ip_vs_get_services =
  gs_num_services :: "32 word"
  gs_entrytable :: "ip_vs_service_entry list"

record ip_vs_get_dests =
  gd_protocol :: "16 word"
  gd_addr :: "32 word"
  gd_port :: "16 word"
  gd_fwmark :: "32 word"
  gd_num_dests :: "32 word"
  gd_entrytable :: "ip_vs_dest_entry list"

record ip_vs_getinfo =
  gi_version :: "32 word"
  gi_size :: "32 word"
  gi_num_services :: "32 word"

subsection \<open>The value list handed to the daemon\<close>

record value_list_t =
  vl_values :: "counter_t list"
  vl_time :: int
  vl_interval :: int
  vl_host :: string
  vl_plugin :: string
  vl_plugin_instance :: string
  vl_type_instance :: string

subsection \<open>Process state, faults and the outside world\<close>

datatype ipvs_fn = Fn_ipvs_get_services | Fn_ipvs_get_dests

datatype call =
    Malloc "32 word"
  | Free
  | Socket
  | Getsockopt_info
  | Getsockopt_services "32 word" "32 word"
  | Getsockopt_dests "32 word" ip_vs_get_dests
  | Close int

record ipvs_state =
  sockfd :: int
  ipvs_func :: "ipvs_fn option"
  ipvs_info :: ip_vs_getinfo
  errno :: int
  logged :: "string list"
  dispatched :: "(string \<times> value_list_t) list"
  calls :: "call list"

text \<open>
  The ways a call can end the process: \<open>exit (n)\<close>, the dereference of a NULL pointer,
  and a read past the entry area of a response buffer.
\<close>

datatype fault = Exit nat | Null_deref | Out_of_bounds

type_synonym 'a result = "fault + 'a"

text \<open>
  What the allocator, the kernel and the C library answer. A system call that fails
  answers \<open>Inl e\<close> with the value \<open>e\<close> of \<open>errno\<close> (it returns \<open>-1\<close>); one that
  succeeds answers \<open>Inr\<close> with what it wrote. \<open>malloc_ok len\<close> says whether
  \<open>malloc (len)\<close> returns a buffer. \<open>stack_garbage\<close> is the content of a local array
  before anything is written to it. One \<open>world\<close> is one snapshot of the kernel: two
  read cycles may run against two different worlds.
\<close>

record world =
  malloc_ok :: "32 word \<Rightarrow> bool"
  sys_socket :: "int + int"
  getsockopt_info :: "int + ip_vs_getinfo"
  getsockopt_services :: "32 word \<Rightarrow> 32 word \<Rightarrow> int + ip_vs_get_services"
  getsockopt_dests :: "32 word \<Rightarrow> ip_vs_get_dests \<Rightarrow> int + ip_vs_get_dests"
  time_now :: int
  sstrerror :: "int \<Rightarrow> string"
  stack_garbage :: string

definition log_err :: "string \<Rightarrow> ipvs_state \<Rightarrow> ipvs_state" where
  "log_err msg st = st\<lparr>logged := logged st @ [''ipvs: '' @ msg]\<rparr>"

definition record_call :: "call \<Rightarrow> ipvs_state \<Rightarrow> ipvs_state" where
  "record_call c st = st\<lparr>calls := calls st @ [c]\<rparr>"

subsection \<open>The C library: printf conversions, inet\_ntoa, ntohs, snprintf\<close>

definition digit_char :: "nat \<Rightarrow> char" where
  "digit_char d = char_of (48 + d)"

text \<open>The conversions \<open>%u\<close> and \<open>%d\<close> of a value that is not negative.\<close>

fun show_nat :: "nat \<Rightarrow> string" where
  "show_nat n =
     (if n < 10 then [digit_char n]
      else show_nat (n div 10) @ [digit_char (n mod 10)])"

declare show_nat.simps [simp del]

text \<open>
  The byte at offset \<open>i\<close> (0 to 3) of a 32-bit field in memory: on a little-endian host
  the byte at offset 0 is the low byte of the word.
\<close>

definition addr_byte :: "byte_order \<Rightarrow> 32 word \<Rightarrow> nat \<Rightarrow> 8 word" where
  "addr_byte bo a i =
     ucast (drop_bit (8 * (case bo of Little_endian \<Rightarrow> i | Big_endian \<Rightarrow> 3 - i)) a)"

text \<open>\<open>inet_ntoa\<close> prints the four bytes of the address in memory order.\<close>

definition inet_ntoa :: "byte_order \<Rightarrow> 32 word \<Rightarrow> string" where
  "inet_ntoa bo a =
     show_nat (unat (addr_byte bo a 0)) @ ''.'' @ show_nat (unat (addr_byte bo a 1)) @ ''.'' @
     show_nat (unat (addr_byte bo a 2)) @ ''.'' @ show_nat (unat (addr_byte bo a 3))"

text \<open>\<open>ntohs\<close> swaps the two bytes on a little-endian host and is the identity otherwise.\<close>

definition ntohs :: "byte_order \<Rightarrow> 16 word \<Rightarrow> 16 word" where
  "ntohs bo p =
     (case bo of Little_endian \<Rightarrow> push_bit 8 p OR drop_bit 8 p | Big_endian \<Rightarrow> p)"

text \<open>
  \<open>snprintf (buf, sz, ...)\<close> with the formatted text \<open>s\<close>: at most \<open>sz - 1\<close>
  characters are stored (none when \<open>sz\<close> is 0), and the length of the whole text is
  returned. The buffer is the C string it holds.
\<close>

definition snprintf :: "string \<Rightarrow> nat \<Rightarrow> string \<Rightarrow> string \<times> int" where
  "snprintf buf sz s = (if sz = 0 then buf else take (sz - 1) s, int (length s))"

subsection \<open>Identifier builders: get\_pi and get\_ti\<close>

text \<open>The text of the format \<open>"%s_%s%u"\<close> with the three arguments of \<open>get_pi\<close>.\<close>

definition format_pi :: "platform \<Rightarrow> ip_vs_service_entry \<Rightarrow> string" where
  "format_pi P se =
     inet_ntoa (host_order P) (se_addr se) @ ''_'' @
     (if se_protocol se = IPPROTO_TCP then ''TCP'' else ''UDP'') @
     show_nat (unat (ntohs (host_order P) (se_port se)))"

text \<open>The text of the format \<open>"%s_%u"\<close> with the two arguments of \<open>get_ti\<close>.\<close>

definition format_ti :: "platform \<Rightarrow> ip_vs_dest_entry \<Rightarrow> string" where
  "format_ti P de =
     inet_ntoa (host_order P) (de_addr de) @ ''_'' @
     show_nat (unat (ntohs (host_order P) (de_port de)))"

text \<open>
  A pointer argument is \<open>None\<close> for NULL; \<open>Some\<close> carries what it points to. The result
  is the return value and the buffer behind \<open>pi\<close> after the call.
\<close>

definition get_pi ::
  "platform \<Rightarrow> ip_vs_service_entry option \<Rightarrow> string option \<Rightarrow> nat \<Rightarrow> ipvs_state
     \<Rightarrow> (int \<times> string option) \<times> ipvs_state" where
  "get_pi P se pi sz st =
     (case (se, pi) of
        (Some e, Some buf) \<Rightarrow>
          (let (buf', len) = snprintf buf sz (format_pi P e)
           in if 0 > len \<or> int sz \<le> len
              then ((-1, Some buf'), log_err (''plugin instance truncated: '' @ buf') st)
              else ((0, Some buf'), st))
      | _ \<Rightarrow> ((0, pi), st))"

definition get_ti ::
  "platform \<Rightarrow> ip_vs_dest_entry option \<Rightarrow> string option \<Rightarrow> nat \<Rightarrow> ipvs_state
     \<Rightarrow> (int \<times> string option) \<times> ipvs_state" where
  "get_ti P de ti sz st =
     (case (de, ti) of
        (Some e, Some buf) \<Rightarrow>
          (let (buf', len) = snprintf buf sz (format_ti P e)
           in if 0 > len \<or> int sz \<le> len
              then ((-1, Some buf'), log_err (''type instance truncated: '' @ buf') st)
              else ((0, Some buf'), st))
      | _ \<Rightarrow> ((0, ti), st))"

subsection \<open>libipvs API: ipvs\_strerror, ipvs\_get\_services, ipvs\_get\_dests\<close>

definition strerror_table :: "(ipvs_fn option \<times> int \<times> string) list" where
  "strerror_table =
     [(None, EPERM, ''Permission denied (you must be root)''),
      (None, EINVAL, ''Module is wrong version''),
      (None, ENOPROTOOPT, ''Protocol not available''),
      (None, ENOMEM, ''Memory allocation problem''),
      (Some Fn_ipvs_get_services, ESRCH, ''No such service''),
      (Some Fn_ipvs_get_dests, ESRCH, ''No such service'')]"

text \<open>The loop of \<open>ipvs_strerror\<close> over the table: the first row that matches.\<close>

fun strerror_scan ::
  "(ipvs_fn option \<times> int \<times> string) list \<Rightarrow> ipvs_fn option \<Rightarrow> int \<Rightarrow> string option" where
  "strerror_scan [] f err = None"
| "strerror_scan ((func, e, message) # rest) f err =
     (if (func = None \<or> func = f) \<and> e = err then Some message
      else strerror_scan rest f err)"

definition ipvs_strerror :: "world \<Rightarrow> int \<Rightarrow> ipvs_state \<Rightarrow> string" where
  "ipvs_strerror W err st =
     (case strerror_scan strerror_table (ipvs_func st) err of
        Some message \<Rightarrow> message
      | None \<Rightarrow> sstrerror W err)"

text \<open>
  The length of the request buffer. The sum is computed in \<open>size_t\<close> and stored in a
  \<open>socklen_t\<close>, which keeps its low 32 bits.
\<close>

definition services_len :: "platform \<Rightarrow> 32 word \<Rightarrow> 32 word" where
  "services_len P n = of_nat (sizeof_get_services P + sizeof_service_entry P * unat n)"

definition dests_len :: "platform \<Rightarrow> 32 word \<Rightarrow> 32 word" where
  "dests_len P n = of_nat (sizeof_get_dests P + sizeof_dest_entry P * unat n)"

text \<open>
  The result is \<open>Inl (Exit 3)\<close> when the process exits, \<open>Inr None\<close> for the NULL
  pointer and \<open>Inr (Some ret)\<close> for the buffer the kernel filled.
\<close>

definition ipvs_get_services ::
  "platform \<Rightarrow> world \<Rightarrow> ipvs_state \<Rightarrow> ip_vs_get_services option result \<times> ipvs_state" where
  "ipvs_get_services P W st =
     (let len = services_len P (gi_num_services (ipvs_info st));
          st1 = record_call (Malloc len) st
      in if \<not> malloc_ok W len
         then (Inl (Exit 3), log_err ''ipvs_get_services: Out of memory.'' st1)
         else
           (let st2 = st1\<lparr>ipvs_func := Some Fn_ipvs_get_services\<rparr>;
                n = gi_num_services (ipvs_info st2);
                st3 = record_call (Getsockopt_services len n) st2
            in case getsockopt_services W len n of
                 Inl e \<Rightarrow>
                   (let st4 = st3\<lparr>errno := e\<rparr>;
                        st5 = log_err (''ipvs_get_services: getsockopt failed: '' @
                                       ipvs_strerror W (errno st4) st4) st4
                    in (Inr None, record_call Free st5))
               | Inr ret \<Rightarrow> (Inr (Some ret), st3)))"

text \<open>
  The header that \<open>ipvs_get_dests\<close> writes into the buffer before the call: the five
  fields copied from the service entry, and no entry yet.
\<close>

definition dests_request :: "ip_vs_service_entry \<Rightarrow> ip_vs_get_dests" where
  "dests_request se =
     \<lparr>gd_protocol = se_protocol se, gd_addr = se_addr se, gd_port = se_port se,
      gd_fwmark = se_fwmark se, gd_num_dests = se_num_dests se, gd_entrytable = []\<rparr>"

definition ipvs_get_dests ::
  "platform \<Rightarrow> world \<Rightarrow> ip_vs_service_entry \<Rightarrow> ipvs_state
     \<Rightarrow> ip_vs_get_dests option result \<times> ipvs_state" where
  "ipvs_get_dests P W se st =
     (let len = dests_len P (se_num_dests se);
          st1 = record_call (Malloc len) st
      in if \<not> malloc_ok W len
         then (Inl (Exit 3), log_err ''ipvs_get_dests: Out of memory.'' st1)
         else
           (let st2 = st1\<lparr>ipvs_func := Some Fn_ipvs_get_dests\<rparr>;
                req = dests_request se;
                st3 = record_call (Getsockopt_dests len req) st2
            in case getsockopt_dests W len req of
                 Inl e \<Rightarrow>
                   (let st4 = st3\<lparr>errno := e\<rparr>;
                        st5 = log_err (''ipvs_get_dests: getsockopt() failed: '' @
                                       ipvs_strerror W (errno st4) st4) st4
                    in (Inr None, record_call Free st5))
               | Inr ret \<Rightarrow> (Inr (Some ret), st3)))"

subsection \<open>Plugin API: cipvs\_init\<close>

definition cipvs_init :: "platform \<Rightarrow> world \<Rightarrow> ipvs_state \<Rightarrow> int \<times> ipvs_state" where
  "cipvs_init P W st =
     (let st1 = record_call Socket st
      in case sys_socket W of
           Inl e \<Rightarrow>
             (let st2 = st1\<lparr>sockfd := - 1, errno := e\<rparr>
              in (- 1, log_err (''cipvs_init: socket() failed: '' @
                                ipvs_strerror W (errno st2) st2) st2))
         | Inr fd \<Rightarrow>
             (let st2 = record_call Getsockopt_info (st1\<lparr>sockfd := fd\<rparr>)
              in case getsockopt_info W of
                   Inl e \<Rightarrow>
                     (let st3 = st2\<lparr>errno := e\<rparr>
                      in (- 1, log_err (''cipvs_init: getsockopt() failed: '' @
                                        ipvs_strerror W (errno st3) st3) st3))
                 | Inr info \<Rightarrow> (0, st2\<lparr>ipvs_info := info\<rparr>)))"

subsection \<open>Submitting value lists\<close>

definition plugin_dispatch_values :: "string \<Rightarrow> value_list_t \<Rightarrow> ipvs_state \<Rightarrow> ipvs_state" where
  "plugin_dispatch_values type vl st = st\<lparr>dispatched := dispatched st @ [(type, vl)]\<rparr>"

text \<open>\<open>pi\<close> points to a string; \<open>ti\<close> is \<open>None\<close> for NULL.\<close>

definition cipvs_submit_connections ::
  "platform \<Rightarrow> world \<Rightarrow> string \<Rightarrow> string option \<Rightarrow> counter_t \<Rightarrow> ipvs_state \<Rightarrow> ipvs_state" where
  "cipvs_submit_connections P W pi ti val st =
     plugin_dispatch_values ''connections''
       \<lparr>vl_values = [val], vl_time = time_now W, vl_interval = interval_g P,
        vl_host = hostname_g P, vl_plugin = ''ipvs'', vl_plugin_instance = pi,
        vl_type_instance = (case ti of Some t \<Rightarrow> t | None \<Rightarrow> ''total'')\<rparr> st"

definition cipvs_submit_if ::
  "platform \<Rightarrow> world \<Rightarrow> string \<Rightarrow> string \<Rightarrow> string option \<Rightarrow> counter_t \<Rightarrow> counter_t
     \<Rightarrow> ipvs_state \<Rightarrow> ipvs_state" where
  "cipvs_submit_if P W pi t ti rx tx st =
     plugin_dispatch_values t
       \<lparr>vl_values = [rx, tx], vl_time = time_now W, vl_interval = interval_g P,
        vl_host = hostname_g P, vl_plugin = ''ipvs'', vl_plugin_instance = pi,
        vl_type_instance = (case ti of Some t' \<Rightarrow> t' | None \<Rightarrow> ''total'')\<rparr> st"

text \<open>
  \<open>ti\<close> is a local array: its content after \<open>get_ti\<close> is what was written through the
  pointer, or what it held before.
\<close>

definition cipvs_submit_dest ::
  "platform \<Rightarrow> world \<Rightarrow> string \<Rightarrow> ip_vs_dest_entry \<Rightarrow> ipvs_state \<Rightarrow> ipvs_state" where
  "cipvs_submit_dest P W pi de st =
     (let stats = de_stats de;
          ti0 = stack_garbage W;
          ((rc, t), st1) = get_ti P (Some de) (Some ti0) (DATA_MAX_NAME_LEN P) st;
          ti = (case t of Some b \<Rightarrow> b | None \<Rightarrow> ti0)
      in if rc \<noteq> 0 then st1
         else
           (let st2 = cipvs_submit_connections P W pi (Some ti) (ucast (conns stats)) st1;
                st3 = cipvs_submit_if P W pi ''if_packets'' (Some ti)
                        (ucast (inpkts stats)) (ucast (outpkts stats)) st2
            in cipvs_submit_if P W pi ''if_octets'' (Some ti)
                 (inbytes stats) (outbytes stats) st3))"

text \<open>
  The loop \<open>for (i = 0; i < dests->num_dests; ++i)\<close>, over the indices it visits. An
  index past the entry area of the buffer is a read out of bounds. (The counter \<open>i\<close>
  is an \<open>int\<close>; it cannot overflow before the read leaves a buffer whose length is a
  \<open>socklen_t\<close>.)
\<close>

fun submit_dests_loop ::
  "platform \<Rightarrow> world \<Rightarrow> string \<Rightarrow> ip_vs_dest_entry list \<Rightarrow> nat list \<Rightarrow> ipvs_state
     \<Rightarrow> unit result \<times> ipvs_state" where
  "submit_dests_loop P W pi tab [] st = (Inr (), st)"
| "submit_dests_loop P W pi tab (i # rest) st =
     (if i < length tab
      then submit_dests_loop P W pi tab rest (cipvs_submit_dest P W pi (tab ! i) st)
      else (Inl Out_of_bounds, st))"

definition cipvs_submit_service ::
  "platform \<Rightarrow> world \<Rightarrow> ip_vs_service_entry \<Rightarrow> ipvs_state \<Rightarrow> unit result \<times> ipvs_state" where
  "cipvs_submit_service P W se st =
     (let stats = se_stats se
      in case ipvs_get_dests P W se st of
           (Inl f, st1) \<Rightarrow> (Inl f, st1)
         | (Inr dests, st1) \<Rightarrow>
             (let pi0 = stack_garbage W;
                  ((rc, p), st2) = get_pi P (Some se) (Some pi0) (DATA_MAX_NAME_LEN P) st1;
                  pi = (case p of Some b \<Rightarrow> b | None \<Rightarrow> pi0)
              in if rc \<noteq> 0 then (Inr (), st2)
                 else
                   (let st3 = cipvs_submit_connections P W pi None (ucast (conns stats)) st2;
                        st4 = cipvs_submit_if P W pi ''if_packets'' None
                                (ucast (inpkts stats)) (ucast (outpkts stats)) st3;
                        st5 = cipvs_submit_if P W pi ''if_octets'' None
                                (inbytes stats) (outbytes stats) st4
                    in case dests of
                         None \<Rightarrow> (Inl Null_deref, st5)
                       | Some d \<Rightarrow>
                           (case submit_dests_loop P W pi (gd_entrytable d)
                                   [0 ..< unat (gd_num_dests d)] st5 of
                              (Inl f, st6) \<Rightarrow> (Inl f, st6)
                            | (Inr u, st6) \<Rightarrow> (Inr (), record_call Free st6)))))"

subsection \<open>Plugin API: cipvs\_read and cipvs\_shutdown\<close>

text \<open>The loop \<open>for (i = 0; i < services->num_services; ++i)\<close>.\<close>

fun submit_services_loop ::
  "platform \<Rightarrow> world \<Rightarrow> ip_vs_service_entry list \<Rightarrow> nat list \<Rightarrow> ipvs_state
     \<Rightarrow> unit result \<times> ipvs_state" where
  "submit_services_loop P W tab [] st = (Inr (), st)"
| "submit_services_loop P W tab (i # rest) st =
     (if i < length tab
      then (case cipvs_submit_service P W (tab ! i) st of
              (Inl f, st1) \<Rightarrow> (Inl f, st1)
            | (Inr u, st1) \<Rightarrow> submit_services_loop P W tab rest st1)
      else (Inl Out_of_bounds, st))"

definition cipvs_read :: "platform \<Rightarrow> world \<Rightarrow> ipvs_state \<Rightarrow> int result \<times> ipvs_state" where
  "cipvs_read P W st =
     (case ipvs_get_services P W st of
        (Inl f, st1) \<Rightarrow> (Inl f, st1)
      | (Inr None, st1) \<Rightarrow> (Inr (- 1), st1)
      | (Inr (Some services), st1) \<Rightarrow>
          (case submit_services_loop P W (gs_entrytable services)
                  [0 ..< unat (gs_num_services services)] st1 of
             (Inl f, st2) \<Rightarrow> (Inl f, st2)
           | (Inr u, st2) \<Rightarrow> (Inr 0, record_call Free st2)))"

definition cipvs_shutdown :: "ipvs_state \<Rightarrow> int \<times> ipvs_state" where
  "cipvs_shutdown st = (0, record_call (Close (sockfd st)) st)"

text \<open>The static variables before \<open>cipvs_init\<close>.\<close>

definition initial_state :: ipvs_state where
  "initial_state =
     \<lparr>sockfd = - 1, ipvs_func = None,
      ipvs_info = \<lparr>gi_version = 0, gi_size = 0, gi_num_services = 0\<rparr>,
      errno = 0, logged = [], dispatched = [], calls = []\<rparr>"

text \<open>
  The daemon calls the read callback once per interval; a cycle that ends the process is
  the last one. Each cycle meets its own world.
\<close>

fun read_cycles :: "platform \<Rightarrow> world list \<Rightarrow> ipvs_state \<Rightarrow> ipvs_state" where
  "read_cycles P [] st = st"
| "read_cycles P (W # Ws) st =
     (case cipvs_read P W st of
        (Inl f, st') \<Rightarrow> st'
      | (Inr rc, st') \<Rightarrow> read_cycles P Ws st')"

subsection \<open>The identifier formats of the specification\<close>

text \<open>
  The address field whose four bytes in memory are \<open>a b c d\<close>, and the port field whose
  two bytes in memory are \<open>hi lo\<close>: this is network byte order, in which the address is
  \<open>a.b.c.d\<close> and the port is \<open>256 * hi + lo\<close>.
\<close>

definition in_addr :: "byte_order \<Rightarrow> 8 word \<Rightarrow> 8 word \<Rightarrow> 8 word \<Rightarrow> 8 word \<Rightarrow> 32 word" where
  "in_addr bo a b c d =
     (case bo of
        Little_endian \<Rightarrow>
          ucast a OR push_bit 8 (ucast b) OR push_bit 16 (ucast c) OR push_bit 24 (ucast d)
      | Big_endian \<Rightarrow>
          push_bit 24 (ucast a) OR push_bit 16 (ucast b) OR push_bit 8 (ucast c) OR ucast d)"

definition in_port :: "byte_order \<Rightarrow> 8 word \<Rightarrow> 8 word \<Rightarrow> 16 word" where
  "in_port bo hi lo =
     (case bo of
        Little_endian \<Rightarrow> ucast hi OR push_bit 8 (ucast lo)
      | Big_endian \<Rightarrow> push_bit 8 (ucast hi) OR ucast lo)"

definition dotted_decimal :: "8 word \<Rightarrow> 8 word \<Rightarrow> 8 word \<Rightarrow> 8 word \<Rightarrow> string" where
  "dotted_decimal a b c d =
     show_nat (unat a) @ ''.'' @ show_nat (unat b) @ ''.'' @
     show_nat (unat c) @ ''.'' @ show_nat (unat d)"

definition protocol_name :: "16 word \<Rightarrow> string" where
  "protocol_name pr =
     (if pr = IPPROTO_TCP then ''TCP'' else if pr = IPPROTO_UDP then ''UDP'' else [])"

text \<open>
  \<open>BuildServiceId\<close> and \<open>BuildDestinationId\<close> as the specification words them:
  \<open>{address}_{PROTO}{port}\<close> and \<open>{address}_{port}\<close>, the address in dotted decimal,
  the protocol name in upper case, the port in decimal in host byte order.
\<close>

definition BuildServiceId ::
  "16 word \<Rightarrow> 8 word \<Rightarrow> 8 word \<Rightarrow> 8 word \<Rightarrow> 8 word \<Rightarrow> nat \<Rightarrow> string" where
  "BuildServiceId pr a b c d port =
     dotted_decimal a b c d @ ''_'' @ protocol_name pr @ show_nat port"

definition BuildDestinationId :: "8 word \<Rightarrow> 8 word \<Rightarrow> 8 word \<Rightarrow> 8 word \<Rightarrow> nat \<Rightarrow> string" where
  "BuildDestinationId a b c d port = dotted_decimal a b c d @ ''_'' @ show_nat port"

subsection \<open>Value lists by content\<close>

text \<open>
  The value list that \<open>cipvs_submit_connections\<close> and \<open>cipvs_submit_if\<close> fill in, by
  type, plugin instance, type instance and values; the three value lists submitted for
  one set of counters; and what a call has added to the dispatched value lists.
\<close>

definition sample ::
  "platform \<Rightarrow> world \<Rightarrow> string \<Rightarrow> string \<Rightarrow> string \<Rightarrow> counter_t list
     \<Rightarrow> string \<times> value_list_t" where
  "sample P W type pi ti vals =
     (type, \<lparr>vl_values = vals, vl_time = time_now W, vl_interval = interval_g P,
             vl_host = hostname_g P, vl_plugin = ''ipvs'', vl_plugin_instance = pi,
             vl_type_instance = ti\<rparr>)"

definition stats_samples ::
  "platform \<Rightarrow> world \<Rightarrow> string \<Rightarrow> string \<Rightarrow> ip_vs_stats_user
     \<Rightarrow> (string \<times> value_list_t) list" where
  "stats_samples P W pi ti s =
     [sample P W ''connections'' pi ti [ucast (conns s)],
      sample P W ''if_packets'' pi ti [ucast (inpkts s), ucast (outpkts s)],
      sample P W ''if_octets'' pi ti [inbytes s, outbytes s]]"

definition emitted :: "ipvs_state \<Rightarrow> ipvs_state \<Rightarrow> (string \<times> value_list_t) list" where
  "emitted st st' = drop (length (dispatched st)) (dispatched st')"

text \<open>
  What one real server and one service add to the dispatched value lists, written as a
  function of the entry and of the answers of the world. The lemmas
  \<open>cipvs_submit_dest_fields\<close> and \<open>cipvs_submit_service_dispatched\<close> below prove that
  the C functions dispatch exactly these.
\<close>

definition dest_samples ::
  "platform \<Rightarrow> world \<Rightarrow> string \<Rightarrow> ip_vs_dest_entry \<Rightarrow> (string \<times> value_list_t) list" where
  "dest_samples P W pi de =
     (if DATA_MAX_NAME_LEN P \<le> length (format_ti P de) then []
      else stats_samples P W pi (format_ti P de) (de_stats de))"

definition service_samples ::
  "platform \<Rightarrow> world \<Rightarrow> ip_vs_service_entry \<Rightarrow> (string \<times> value_list_t) list" where
  "service_samples P W se =
     (if \<not> malloc_ok W (dests_len P (se_num_dests se)) then []
      else if DATA_MAX_NAME_LEN P \<le> length (format_pi P se) then []
      else stats_samples P W (format_pi P se) ''total'' (se_stats se) @
           (case getsockopt_dests W (dests_len P (se_num_dests se)) (dests_request se) of
              Inl e \<Rightarrow> []
            | Inr d \<Rightarrow>
                concat (map (dest_samples P W (format_pi P se))
                          (take (unat (gd_num_dests d)) (gd_entrytable d)))))"

subsection \<open>Test fixtures\<close>

text \<open>
  A platform with a given byte order and identifier capacity; the counters, the service
  10.0.0.1 port 80 and the real server 10.0.0.2 port 8080 of the round-trip example of the
  specification; and a world whose allocator never fails, with given answers to the two
  table requests.
\<close>

definition fixture_platform :: "byte_order \<Rightarrow> nat \<Rightarrow> platform" where
  "fixture_platform bo n =
     \<lparr>host_order = bo, DATA_MAX_NAME_LEN = n, sizeof_get_services = 8,
      sizeof_service_entry = 104, sizeof_get_dests = 24, sizeof_dest_entry = 80,
      hostname_g = ''lb1'', interval_g = 10\<rparr>"

definition fixture_stats :: ip_vs_stats_user where
  "fixture_stats = \<lparr>conns = 5, inpkts = 10, outpkts = 20, inbytes = 100, outbytes = 200\<rparr>"

definition fixture_service :: "byte_order \<Rightarrow> 16 word \<Rightarrow> 8 word \<Rightarrow> ip_vs_service_entry" where
  "fixture_service bo pr d =
     \<lparr>se_protocol = pr, se_addr = in_addr bo 10 0 0 d, se_port = in_port bo 0 80,
      se_fwmark = 0, se_num_dests = 1, se_stats = fixture_stats\<rparr>"

definition fixture_dest :: "byte_order \<Rightarrow> ip_vs_dest_entry" where
  "fixture_dest bo =
     \<lparr>de_addr = in_addr bo 10 0 0 2, de_port = in_port bo 31 144, de_stats = fixture_stats\<rparr>"

definition fixture_world ::
  "(int + ip_vs_get_services) \<Rightarrow> (ip_vs_get_dests \<Rightarrow> int + ip_vs_get_dests) \<Rightarrow> world" where
  "fixture_world services dests =
     \<lparr>malloc_ok = (\<lambda>len. True), sys_socket = Inr 3,
      getsockopt_info = Inr \<lparr>gi_version = 65536, gi_size = 4096, gi_num_services = 1\<rparr>,
      getsockopt_services = (\<lambda>len n. services),
      getsockopt_dests = (\<lambda>len req. dests req),
      time_now = 1000, sstrerror = (\<lambda>e. ''Unknown error''), stack_garbage = []\<rparr>"

text \<open>
  Three worlds: one whose service table is empty although the global information
  announces one service; one whose allocator always fails; one whose service table
  request fails with \<open>ESRCH\<close>.
\<close>

definition no_dests :: "ip_vs_get_dests \<Rightarrow> int + ip_vs_get_dests" where
  "no_dests req = Inl ESRCH"

definition empty_table_world :: world where
  "empty_table_world =
     fixture_world (Inr \<lparr>gs_num_services = 0, gs_entrytable = []\<rparr>) no_dests"

definition out_of_memory_world :: world where
  "out_of_memory_world = empty_table_world\<lparr>malloc_ok := (\<lambda>len. False)\<rparr>"

definition no_table_world :: world where
  "no_table_world = fixture_world (Inl ESRCH) no_dests"

text \<open>
  The answer to a destination request with the one real server of the example; the world
  of the round-trip example; and a world with two services, 10.0.0.1 and 10.0.0.3, in
  which the destination request for 10.0.0.1 fails with \<open>ESRCH\<close>.
\<close>

definition one_dest :: "byte_order \<Rightarrow> ip_vs_get_dests \<Rightarrow> int + ip_vs_get_dests" where
  "one_dest bo req = Inr (req\<lparr>gd_num_dests := 1, gd_entrytable := [fixture_dest bo]\<rparr>)"

definition round_trip_world :: "byte_order \<Rightarrow> world" where
  "round_trip_world bo =
     fixture_world
       (Inr \<lparr>gs_num_services = 1, gs_entrytable = [fixture_service bo IPPROTO_TCP 1]\<rparr>)
       (one_dest bo)"

definition stale_dests :: "byte_order \<Rightarrow> ip_vs_get_dests \<Rightarrow> int + ip_vs_get_dests" where
  "stale_dests bo req =
     (if gd_addr req = in_addr bo 10 0 0 1 then Inl ESRCH else one_dest bo req)"

definition stale_service_world :: "byte_order \<Rightarrow> world" where
  "stale_service_world bo =
     fixture_world
       (Inr \<lparr>gs_num_services = 2,
             gs_entrytable = [fixture_service bo IPPROTO_TCP 1, fixture_service bo IPPROTO_TCP 3]\<rparr>)
       (stale_dests bo)"

section \<open>Properties of the C library model\<close>

lemma digit_char_code: "d < 10 \<Longrightarrow> (of_char (digit_char d) :: nat) = 48 + d"
  by (simp add: digit_char_def)

lemma digit_char_inj:
  assumes "a < 10" "b < 10" "digit_char a = digit_char b"
  shows "a = b"
proof -
  have "(of_char (digit_char a) :: nat) = of_char (digit_char b)"
    using assms by simp
  then have "48 + a = 48 + b"
    using assms(1,2) by (simp only: digit_char_code)
  then show ?thesis by simp
qed

lemma digit_char_not_sep:
  assumes "d < 10"
  shows "digit_char d \<noteq> CHR ''.''" and "digit_char d \<noteq> CHR ''_''"
proof -
  have "(of_char (digit_char d) :: nat) \<noteq> of_char CHR ''.''"
    using assms by (simp add: digit_char_code)
  then show "digit_char d \<noteq> CHR ''.''" by auto
  have "(of_char (digit_char d) :: nat) \<noteq> of_char CHR ''_''"
    using assms by (simp add: digit_char_code)
  then show "digit_char d \<noteq> CHR ''_''" by auto
qed

lemma show_nat_nonempty: "show_nat n \<noteq> []"
  by (subst show_nat.simps) simp

lemma show_nat_no_sep: "CHR ''.'' \<notin> set (show_nat n) \<and> CHR ''_'' \<notin> set (show_nat n)"
proof (induction n rule: show_nat.induct)
  case (1 n)
  show ?case
  proof (cases "n < 10")
    case True
    then show ?thesis
      using digit_char_not_sep [of n] by (subst (1 2) show_nat.simps) auto
  next
    case False
    have "n mod 10 < 10" by simp
    then show ?thesis
      using False 1 digit_char_not_sep [of "n mod 10"]
      by (subst (1 2) show_nat.simps) auto
  qed
qed

lemma show_nat_inj: "show_nat m = show_nat n \<Longrightarrow> m = n"
proof (induction m arbitrary: n rule: show_nat.induct)
  case (1 m)
  show ?case
  proof (cases "m < 10")
    case m: True
    show ?thesis
    proof (cases "n < 10")
      case True
      with m 1(2) show ?thesis
        by (simp add: show_nat.simps [of m] show_nat.simps [of n] digit_char_inj)
    next
      case False
      with m 1(2) show ?thesis
        using show_nat_nonempty [of "n div 10"]
        by (simp add: show_nat.simps [of m] show_nat.simps [of n])
    qed
  next
    case m: False
    show ?thesis
    proof (cases "n < 10")
      case True
      with m 1(2) show ?thesis
        using show_nat_nonempty [of "m div 10"]
        by (simp add: show_nat.simps [of m] show_nat.simps [of n])
    next
      case False
      with m 1(2) have eq: "show_nat (m div 10) = show_nat (n div 10)"
        and d: "digit_char (m mod 10) = digit_char (n mod 10)"
        by (simp_all add: show_nat.simps [of m] show_nat.simps [of n])
      from 1(1) [OF m eq] have "m div 10 = n div 10" .
      moreover from d have "m mod 10 = n mod 10"
        by (intro digit_char_inj) simp_all
      ultimately show ?thesis by (metis div_mult_mod_eq)
    qed
  qed
qed

lemma show_nat_length: "n < 10 ^ Suc k \<Longrightarrow> length (show_nat n) \<le> Suc k"
proof (induction k arbitrary: n)
  case 0
  then show ?case by (subst show_nat.simps) simp
next
  case (Suc k)
  show ?case
  proof (cases "n < 10")
    case True
    then show ?thesis by (subst show_nat.simps) simp
  next
    case False
    from Suc.prems have "n div 10 < 10 ^ Suc k"
      by (simp add: less_mult_imp_div_less)
    from Suc.IH [OF this] False show ?thesis
      by (subst show_nat.simps) simp
  qed
qed

lemma sep_split:
  "c \<notin> set a \<Longrightarrow> c \<notin> set a' \<Longrightarrow> a @ c # r = a' @ c # r' \<Longrightarrow> a = a' \<and> r = r'"
proof (induction a arbitrary: a')
  case Nil
  then show ?case by (cases a') auto
next
  case (Cons x a)
  then show ?case by (cases a') auto
qed

lemma ntohs_invol: "ntohs bo (ntohs bo p) = p"
proof (cases bo)
  case Little_endian
  have "push_bit 8 (push_bit 8 p OR drop_bit 8 p) OR drop_bit 8 (push_bit 8 p OR drop_bit 8 p) = p"
    by (rule bit_word_eqI) (auto simp: bit_simps)
  then show ?thesis
    using Little_endian by (simp add: ntohs_def)
next
  case Big_endian
  then show ?thesis by (simp add: ntohs_def)
qed

lemma ntohs_inj: "ntohs bo p = ntohs bo q \<Longrightarrow> p = q"
  by (metis ntohs_invol)

lemma bit_addr_byte:
  "bit (addr_byte bo a i) m \<longleftrightarrow>
     m < 8 \<and> bit a (8 * (case bo of Little_endian \<Rightarrow> i | Big_endian \<Rightarrow> 3 - i) + m)"
  by (auto simp: addr_byte_def bit_simps)

lemma addr_bytes_inj:
  assumes "\<forall>i<4. addr_byte bo a i = addr_byte bo b i"
  shows "a = b"
proof (rule bit_word_eqI)
  fix n
  assume n: "n < LENGTH(32)"
  define k where "k = n div 8"
  define m where "m = n mod 8"
  have k: "k < 4" and m: "m < 8" and nkm: "n = 8 * k + m"
    using n by (auto simp: k_def m_def)
  define i where "i = (case bo of Little_endian \<Rightarrow> k | Big_endian \<Rightarrow> 3 - k)"
  have i: "i < 4" and ki: "(case bo of Little_endian \<Rightarrow> i | Big_endian \<Rightarrow> 3 - i) = k"
    using k by (auto simp: i_def split: byte_order.splits)
  have "bit (addr_byte bo a i) m = bit (addr_byte bo b i) m"
    using assms i by simp
  then show "bit a n = bit b n"
    using m by (simp add: bit_addr_byte ki nkm)
qed

lemma show_unat_inj: "show_nat (unat v) = show_nat (unat w) \<Longrightarrow> v = w"
  by (auto dest!: show_nat_inj simp: word_unat_eq_iff)

lemma inet_ntoa_no_underscore: "CHR ''_'' \<notin> set (inet_ntoa bo a)"
  using show_nat_no_sep by (simp add: inet_ntoa_def)

lemma inet_ntoa_inj:
  assumes "inet_ntoa bo a = inet_ntoa bo b"
  shows "a = b"
proof -
  let ?s = "\<lambda>x i. show_nat (unat (addr_byte bo x i))"
  have e0: "?s a 0 @ CHR ''.'' # (?s a 1 @ CHR ''.'' # (?s a 2 @ CHR ''.'' # ?s a 3))
          = ?s b 0 @ CHR ''.'' # (?s b 1 @ CHR ''.'' # (?s b 2 @ CHR ''.'' # ?s b 3))"
    using assms by (simp add: inet_ntoa_def)
  have s0: "?s a 0 = ?s b 0"
    and e1: "?s a 1 @ CHR ''.'' # (?s a 2 @ CHR ''.'' # ?s a 3)
           = ?s b 1 @ CHR ''.'' # (?s b 2 @ CHR ''.'' # ?s b 3)"
    using sep_split [OF _ _ e0] show_nat_no_sep by blast+
  have s1: "?s a 1 = ?s b 1"
    and e2: "?s a 2 @ CHR ''.'' # ?s a 3 = ?s b 2 @ CHR ''.'' # ?s b 3"
    using sep_split [OF _ _ e1] show_nat_no_sep by blast+
  have s2: "?s a 2 = ?s b 2" and s3: "?s a 3 = ?s b 3"
    using sep_split [OF _ _ e2] show_nat_no_sep by blast+
  have "addr_byte bo a i = addr_byte bo b i" if "i < 4" for i
  proof -
    from that have "i = 0 \<or> i = 1 \<or> i = 2 \<or> i = 3" by arith
    then have "?s a i = ?s b i" using s0 s1 s2 s3 by auto
    then show ?thesis by (rule show_unat_inj)
  qed
  then show ?thesis by (intro addr_bytes_inj [of bo]) simp
qed

lemma format_pi_eq_iff:
  "format_pi P se = format_pi P se' \<longleftrightarrow>
     se_addr se = se_addr se' \<and> se_port se = se_port se' \<and>
     (se_protocol se = IPPROTO_TCP \<longleftrightarrow> se_protocol se' = IPPROTO_TCP)"
proof
  assume eq: "format_pi P se = format_pi P se'"
  let ?bo = "host_order P"
  let ?t = "\<lambda>e. (if se_protocol e = IPPROTO_TCP then ''TCP'' else ''UDP'') @
                 show_nat (unat (ntohs ?bo (se_port e)))"
  have e: "inet_ntoa ?bo (se_addr se) @ CHR ''_'' # ?t se
         = inet_ntoa ?bo (se_addr se') @ CHR ''_'' # ?t se'"
    using eq by (simp add: format_pi_def)
  from sep_split [OF inet_ntoa_no_underscore inet_ntoa_no_underscore e]
  have a: "inet_ntoa ?bo (se_addr se) = inet_ntoa ?bo (se_addr se')" and t: "?t se = ?t se'"
    by blast+
  from t have pr: "se_protocol se = IPPROTO_TCP \<longleftrightarrow> se_protocol se' = IPPROTO_TCP"
    by (auto split: if_splits)
  with t have "show_nat (unat (ntohs ?bo (se_port se))) = show_nat (unat (ntohs ?bo (se_port se')))"
    by (auto split: if_splits)
  then have "se_port se = se_port se'"
    by (auto dest!: show_unat_inj ntohs_inj)
  with a pr show "se_addr se = se_addr se' \<and> se_port se = se_port se' \<and>
     (se_protocol se = IPPROTO_TCP \<longleftrightarrow> se_protocol se' = IPPROTO_TCP)"
    by (auto dest: inet_ntoa_inj)
next
  assume "se_addr se = se_addr se' \<and> se_port se = se_port se' \<and>
     (se_protocol se = IPPROTO_TCP \<longleftrightarrow> se_protocol se' = IPPROTO_TCP)"
  then show "format_pi P se = format_pi P se'"
    by (simp add: format_pi_def)
qed

lemma format_ti_eq_iff:
  "format_ti P de = format_ti P de' \<longleftrightarrow> de_addr de = de_addr de' \<and> de_port de = de_port de'"
proof
  assume eq: "format_ti P de = format_ti P de'"
  let ?bo = "host_order P"
  have e: "inet_ntoa ?bo (de_addr de) @ CHR ''_'' # show_nat (unat (ntohs ?bo (de_port de)))
         = inet_ntoa ?bo (de_addr de') @ CHR ''_'' # show_nat (unat (ntohs ?bo (de_port de')))"
    using eq by (simp add: format_ti_def)
  from sep_split [OF inet_ntoa_no_underscore inet_ntoa_no_underscore e]
  show "de_addr de = de_addr de' \<and> de_port de = de_port de'"
    by (auto dest!: show_unat_inj ntohs_inj inet_ntoa_inj)
next
  assume "de_addr de = de_addr de' \<and> de_port de = de_port de'"
  then show "format_ti P de = format_ti P de'"
    by (simp add: format_ti_def)
qed

lemma get_pi_cases:
  "get_pi P (Some se) (Some buf) sz st =
     (if sz \<le> length (format_pi P se)
      then ((- 1, Some (if sz = 0 then buf else take (sz - 1) (format_pi P se))),
            log_err (''plugin instance truncated: '' @
                     (if sz = 0 then buf else take (sz - 1) (format_pi P se))) st)
      else ((0, Some (format_pi P se)), st))"
  by (auto simp: get_pi_def snprintf_def)

lemma get_ti_cases:
  "get_ti P (Some de) (Some buf) sz st =
     (if sz \<le> length (format_ti P de)
      then ((- 1, Some (if sz = 0 then buf else take (sz - 1) (format_ti P de))),
            log_err (''type instance truncated: '' @
                     (if sz = 0 then buf else take (sz - 1) (format_ti P de))) st)
      else ((0, Some (format_ti P de)), st))"
  by (auto simp: get_ti_def snprintf_def)

lemma addr_byte_in_addr:
  "addr_byte bo (in_addr bo a b c d) 0 = a"
  "addr_byte bo (in_addr bo a b c d) 1 = b"
  "addr_byte bo (in_addr bo a b c d) 2 = c"
  "addr_byte bo (in_addr bo a b c d) 3 = d"
  by (cases bo; rule bit_word_eqI;
      auto simp: addr_byte_def in_addr_def bit_simps dest: bit_imp_le_length)+

lemma inet_ntoa_in_addr: "inet_ntoa bo (in_addr bo a b c d) = dotted_decimal a b c d"
  by (simp only: inet_ntoa_def dotted_decimal_def addr_byte_in_addr)

lemma ntohs_in_port: "ntohs bo (in_port bo hi lo) = push_bit 8 (ucast hi) OR ucast lo"
proof (cases bo)
  case Little_endian
  have "push_bit 8 (ucast hi OR push_bit 8 (ucast lo) :: 16 word) OR
        drop_bit 8 (ucast hi OR push_bit 8 (ucast lo)) = push_bit 8 (ucast hi) OR ucast lo"
    by (rule bit_word_eqI) (auto simp: bit_simps dest: bit_imp_le_length)
  then show ?thesis
    using Little_endian by (simp add: ntohs_def in_port_def)
next
  case Big_endian
  then show ?thesis by (simp add: ntohs_def in_port_def)
qed

lemma unat_be16:
  "unat (push_bit 8 (ucast (hi :: 8 word)) OR ucast (lo :: 8 word) :: 16 word) =
     256 * unat hi + unat lo"
proof -
  have hi: "unat hi < 256" and lo: "unat lo < 256"
    using unsigned_less [of hi, where ?'a = nat] unsigned_less [of lo, where ?'a = nat]
    by simp_all
  have "(word_cat hi lo :: 16 word) = push_bit 8 (ucast hi) OR ucast lo"
    by (simp add: word_cat_eq_push_bit_or)
  moreover have "(word_cat hi lo :: 16 word) = push_bit 8 (ucast hi) + ucast lo"
    by (simp add: word_cat_eq)
  ultimately have "(push_bit 8 (ucast hi) OR ucast lo :: 16 word) =
      push_bit 8 (ucast hi) + ucast lo"
    by simp
  moreover have "unat (ucast lo :: 16 word) = unat lo"
    using lo by (simp add: unsigned_ucast_eq take_bit_nat_eq_self)
  moreover have "unat (push_bit 8 (ucast hi :: 16 word)) = 256 * unat hi"
    using hi by (simp add: push_bit_eq_mult unat_word_ariths unsigned_ucast_eq take_bit_nat_eq_self)
  ultimately show ?thesis
    using hi lo by (simp add: unat_word_ariths)
qed

lemma host_port_in_port: "unat (ntohs bo (in_port bo hi lo)) = 256 * unat hi + unat lo"
  by (simp add: ntohs_in_port unat_be16)

lemma show_octet_length: "length (show_nat (unat (w :: 8 word))) \<le> 3"
proof -
  have "unat w < 10 ^ Suc 2"
    using unsigned_less [of w, where ?'a = nat] by simp
  from show_nat_length [OF this] show ?thesis by simp
qed

lemma show_port_length: "length (show_nat (unat (w :: 16 word))) \<le> 5"
proof -
  have "unat w < 10 ^ Suc 4"
    using unsigned_less [of w, where ?'a = nat] by simp
  from show_nat_length [OF this] show ?thesis by simp
qed

lemma inet_ntoa_length: "length (inet_ntoa bo a) \<le> 15"
  using show_octet_length [of "addr_byte bo a 0"] show_octet_length [of "addr_byte bo a 1"]
    show_octet_length [of "addr_byte bo a 2"] show_octet_length [of "addr_byte bo a 3"]
  by (simp add: inet_ntoa_def)

lemma format_pi_length: "length (format_pi P se) \<le> 24"
  using inet_ntoa_length [of "host_order P" "se_addr se"]
    show_port_length [of "ntohs (host_order P) (se_port se)"]
  by (simp add: format_pi_def)

lemma format_ti_length: "length (format_ti P de) \<le> 21"
  using inet_ntoa_length [of "host_order P" "de_addr de"]
    show_port_length [of "ntohs (host_order P) (de_port de)"]
  by (simp add: format_ti_def)

lemma format_pi_nonempty: "0 < length (format_pi P se)"
  by (simp add: format_pi_def)

lemma format_ti_nonempty: "0 < length (format_ti P de)"
  by (simp add: format_ti_def)

section \<open>What the submit functions dispatch\<close>

lemma log_err_fields [simp]:
  "dispatched (log_err m st) = dispatched st"
  "logged (log_err m st) = logged st @ [''ipvs: '' @ m]"
  "calls (log_err m st) = calls st"
  "ipvs_info (log_err m st) = ipvs_info st"
  "ipvs_func (log_err m st) = ipvs_func st"
  "errno (log_err m st) = errno st"
  by (simp_all add: log_err_def)

lemma record_call_fields [simp]:
  "dispatched (record_call c st) = dispatched st"
  "logged (record_call c st) = logged st"
  "calls (record_call c st) = calls st @ [c]"
  "ipvs_info (record_call c st) = ipvs_info st"
  "ipvs_func (record_call c st) = ipvs_func st"
  "errno (record_call c st) = errno st"
  by (simp_all add: record_call_def)

lemma plugin_dispatch_values_fields [simp]:
  "dispatched (plugin_dispatch_values t vl st) = dispatched st @ [(t, vl)]"
  "logged (plugin_dispatch_values t vl st) = logged st"
  "calls (plugin_dispatch_values t vl st) = calls st"
  "ipvs_info (plugin_dispatch_values t vl st) = ipvs_info st"
  by (simp_all add: plugin_dispatch_values_def)

lemma submit_stats_total:
  "cipvs_submit_if P W pi ''if_octets'' None (inbytes s) (outbytes s)
     (cipvs_submit_if P W pi ''if_packets'' None (ucast (inpkts s)) (ucast (outpkts s))
        (cipvs_submit_connections P W pi None (ucast (conns s)) st)) =
   st\<lparr>dispatched := dispatched st @ stats_samples P W pi ''total'' s\<rparr>"
  by (simp add: cipvs_submit_if_def cipvs_submit_connections_def plugin_dispatch_values_def
      stats_samples_def sample_def)

lemma submit_stats_dest:
  "cipvs_submit_if P W pi ''if_octets'' (Some ti) (inbytes s) (outbytes s)
     (cipvs_submit_if P W pi ''if_packets'' (Some ti) (ucast (inpkts s)) (ucast (outpkts s))
        (cipvs_submit_connections P W pi (Some ti) (ucast (conns s)) st)) =
   st\<lparr>dispatched := dispatched st @ stats_samples P W pi ti s\<rparr>"
  by (simp add: cipvs_submit_if_def cipvs_submit_connections_def plugin_dispatch_values_def
      stats_samples_def sample_def)

lemma cipvs_submit_dest_eq:
  "cipvs_submit_dest P W pi de st =
     (if DATA_MAX_NAME_LEN P \<le> length (format_ti P de)
      then log_err (''type instance truncated: '' @
                    (if DATA_MAX_NAME_LEN P = 0 then stack_garbage W
                     else take (DATA_MAX_NAME_LEN P - 1) (format_ti P de))) st
      else st\<lparr>dispatched := dispatched st @ stats_samples P W pi (format_ti P de) (de_stats de)\<rparr>)"
  by (simp add: cipvs_submit_dest_def get_ti_cases submit_stats_dest Let_def)

lemma cipvs_submit_dest_fields [simp]:
  "dispatched (cipvs_submit_dest P W pi de st) = dispatched st @ dest_samples P W pi de"
  "calls (cipvs_submit_dest P W pi de st) = calls st"
  "ipvs_info (cipvs_submit_dest P W pi de st) = ipvs_info st"
  by (simp_all add: cipvs_submit_dest_eq dest_samples_def)

lemma submit_dests_loop_fields:
  "dispatched (snd (submit_dests_loop P W pi tab ixs st)) =
     dispatched st @ concat (map (\<lambda>i. dest_samples P W pi (tab ! i)) (takeWhile (\<lambda>i. i < length tab) ixs))"
  "ipvs_info (snd (submit_dests_loop P W pi tab ixs st)) = ipvs_info st"
  "fst (submit_dests_loop P W pi tab ixs st) =
     (if \<forall>i\<in>set ixs. i < length tab then Inr () else Inl Out_of_bounds)"
  by (induction ixs arbitrary: st; simp)+


lemma takeWhile_upt: "takeWhile (\<lambda>i. i < m) [0..<n] = [0..<min n m]"
proof (induction n)
  case 0
  then show ?case by simp
next
  case (Suc n)
  show ?case
  proof (cases "n < m")
    case True
    with Suc show ?thesis by (simp add: takeWhile_append min_def)
  next
    case False
    show ?thesis
    proof (cases "n = m")
      case True
      with Suc show ?thesis by (simp add: takeWhile_append)
    next
      case neq: False
      with False have "m < n" by simp
      then have "\<not> (\<forall>x\<in>set [0..<n]. x < m)" by auto
      with Suc \<open>m < n\<close> show ?thesis by (auto simp: takeWhile_append min_def)
    qed
  qed
qed

lemma map_nth_upt_take: "map (\<lambda>i. f (tab ! i)) [0..<min n (length tab)] = map f (take n tab)"
proof -
  have "map f (take n tab) = map f (take n (map ((!) tab) [0..<length tab]))"
    by (simp add: map_nth)
  also have "\<dots> = map f (map ((!) tab) (take n [0..<length tab]))"
    by (simp only: take_map)
  also have "take n [0..<length tab] = [0..<min n (length tab)]"
    by (simp add: min_def)
  finally show ?thesis by (simp add: comp_def)
qed

lemma submit_dests_loop_upt:
  "dispatched (snd (submit_dests_loop P W pi tab [0..<n] st)) =
     dispatched st @ concat (map (dest_samples P W pi) (take n tab))"
  "fst (submit_dests_loop P W pi tab [0..<n] st) =
     (if n \<le> length tab then Inr () else Inl Out_of_bounds)"
  by (auto simp: submit_dests_loop_fields takeWhile_upt map_nth_upt_take)

lemma submit_dests_loop_uptD:
  assumes "submit_dests_loop P W pi tab [0..<n] st = (r, st')"
  shows "r = (if n \<le> length tab then Inr () else Inl Out_of_bounds)"
    and "dispatched st' = dispatched st @ concat (map (dest_samples P W pi) (take n tab))"
    and "ipvs_info st' = ipvs_info st"
  using submit_dests_loop_upt [of P W pi tab n st]
    submit_dests_loop_fields(2) [of P W pi tab "[0..<n]" st] assms
  by simp_all

lemma ipvs_get_dests_fields [simp]:
  "dispatched (snd (ipvs_get_dests P W se st)) = dispatched st"
  "ipvs_info (snd (ipvs_get_dests P W se st)) = ipvs_info st"
  by (simp_all add: ipvs_get_dests_def Let_def split: sum.splits)

lemma ipvs_get_dests_result:
  "fst (ipvs_get_dests P W se st) =
     (if \<not> malloc_ok W (dests_len P (se_num_dests se)) then Inl (Exit 3)
      else case getsockopt_dests W (dests_len P (se_num_dests se)) (dests_request se) of
             Inl e \<Rightarrow> Inr None
           | Inr ret \<Rightarrow> Inr (Some ret))"
  by (simp add: ipvs_get_dests_def Let_def split: sum.splits)

lemma cipvs_submit_service_unfold:
  "cipvs_submit_service P W se st =
     (case fst (ipvs_get_dests P W se st) of
        Inl f \<Rightarrow> (Inl f, snd (ipvs_get_dests P W se st))
      | Inr dests \<Rightarrow>
          (let st1 = snd (ipvs_get_dests P W se st) in
           if DATA_MAX_NAME_LEN P \<le> length (format_pi P se)
           then (Inr (),
                 log_err (''plugin instance truncated: '' @
                          (if DATA_MAX_NAME_LEN P = 0 then stack_garbage W
                           else take (DATA_MAX_NAME_LEN P - 1) (format_pi P se))) st1)
           else
             (let st5 = st1\<lparr>dispatched := dispatched st1 @
                          stats_samples P W (format_pi P se) ''total'' (se_stats se)\<rparr>
              in case dests of
                   None \<Rightarrow> (Inl Null_deref, st5)
                 | Some d \<Rightarrow>
                     (case submit_dests_loop P W (format_pi P se) (gd_entrytable d)
                             [0 ..< unat (gd_num_dests d)] st5 of
                        (Inl f, st6) \<Rightarrow> (Inl f, st6)
                      | (Inr u, st6) \<Rightarrow> (Inr (), record_call Free st6)))))"
  by (cases "ipvs_get_dests P W se st")
     (simp add: cipvs_submit_service_def get_pi_cases submit_stats_total Let_def
        split: sum.splits option.splits)

lemma cipvs_submit_service_result:
  "fst (cipvs_submit_service P W se st) =
     (if \<not> malloc_ok W (dests_len P (se_num_dests se)) then Inl (Exit 3)
      else if DATA_MAX_NAME_LEN P \<le> length (format_pi P se) then Inr ()
      else case getsockopt_dests W (dests_len P (se_num_dests se)) (dests_request se) of
             Inl e \<Rightarrow> Inl Null_deref
           | Inr d \<Rightarrow>
               if unat (gd_num_dests d) \<le> length (gd_entrytable d) then Inr ()
               else Inl Out_of_bounds)"
  by (auto simp: cipvs_submit_service_unfold ipvs_get_dests_result Let_def
      split: sum.splits option.splits prod.splits dest!: submit_dests_loop_uptD(1))

lemma cipvs_submit_service_dispatched:
  "dispatched (snd (cipvs_submit_service P W se st)) = dispatched st @ service_samples P W se"
  by (auto simp: cipvs_submit_service_unfold ipvs_get_dests_result service_samples_def Let_def
      split: sum.splits option.splits prod.splits dest!: submit_dests_loop_uptD(2))

section \<open>Identifier builders\<close>

lemma digit_char_simps:
  "digit_char 0 = CHR ''0''" "digit_char 1 = CHR ''1''" "digit_char 2 = CHR ''2''"
  "digit_char 3 = CHR ''3''" "digit_char 4 = CHR ''4''" "digit_char 5 = CHR ''5''"
  "digit_char 6 = CHR ''6''" "digit_char 7 = CHR ''7''" "digit_char 8 = CHR ''8''"
  "digit_char 9 = CHR ''9''" "digit_char (Suc 0) = CHR ''1''"
  by code_simp+

lemmas show_nat_eval = show_nat.simps digit_char_simps

lemma format_pi_Build:
  assumes "se_protocol se = IPPROTO_TCP \<or> se_protocol se = IPPROTO_UDP"
    and "se_addr se = in_addr (host_order P) a b c d"
    and "se_port se = in_port (host_order P) hi lo"
  shows "format_pi P se = BuildServiceId (se_protocol se) a b c d (256 * unat hi + unat lo)"
  using assms
  by (auto simp: format_pi_def BuildServiceId_def protocol_name_def inet_ntoa_in_addr
      host_port_in_port IPPROTO_TCP_def IPPROTO_UDP_def)

lemma format_ti_Build:
  assumes "de_addr de = in_addr (host_order P) a b c d"
    and "de_port de = in_port (host_order P) hi lo"
  shows "format_ti P de = BuildDestinationId a b c d (256 * unat hi + unat lo)"
  using assms
  by (simp add: format_ti_def BuildDestinationId_def inet_ntoa_in_addr host_port_in_port)

lemma fixture_ids:
  "format_pi (fixture_platform bo n) (fixture_service bo IPPROTO_TCP 1) = ''10.0.0.1_TCP80''"
  "format_pi (fixture_platform bo n) (fixture_service bo IPPROTO_UDP 1) = ''10.0.0.1_UDP80''"
  "format_pi (fixture_platform bo n) (fixture_service bo 132 1) = ''10.0.0.1_UDP80''"
  "format_pi (fixture_platform bo n) (fixture_service bo IPPROTO_TCP 3) = ''10.0.0.3_TCP80''"
  "format_ti (fixture_platform bo n) (fixture_dest bo) = ''10.0.0.2_8080''"
  by (simp_all add: format_pi_def format_ti_def fixture_platform_def fixture_service_def
      fixture_dest_def inet_ntoa_in_addr host_port_in_port dotted_decimal_def
      IPPROTO_TCP_def IPPROTO_UDP_def show_nat_eval)

text \<open>
  C10. Called with a NULL entry or a NULL buffer, \<open>get_pi\<close> and \<open>get_ti\<close> return 0,
  leave the buffer (when there is one) as it was and log nothing: the caller is told
  that the identifier was built although nothing was written.
\<close>

theorem get_pi_get_ti_null:
  "get_pi P None pi sz st = ((0, pi), st) \<and>
   get_pi P se None sz st = ((0, None), st) \<and>
   get_ti P None ti sz st = ((0, ti), st) \<and>
   get_ti P de None sz st = ((0, None), st)"
  by (simp add: get_pi_def get_ti_def split: option.splits)

text \<open>
  C4. For a service entry whose protocol is TCP or UDP, whose address field holds the
  bytes \<open>a b c d\<close> and whose port field holds the bytes \<open>hi lo\<close> (network order),
  \<open>get_pi\<close> with a buffer of more than 24 bytes returns 0 and leaves in the buffer the
  text \<open>{address}_{PROTO}{port}\<close> of the specification, the port being
  \<open>256 * hi + lo\<close>; for a destination entry \<open>get_ti\<close> leaves \<open>{address}_{port}\<close>.
  Neither logs anything.
\<close>

theorem identifier_format:
  assumes "se_protocol se = IPPROTO_TCP \<or> se_protocol se = IPPROTO_UDP"
    and "se_addr se = in_addr (host_order P) a b c d"
    and "se_port se = in_port (host_order P) hi lo"
    and "de_addr de = in_addr (host_order P) a' b' c' d'"
    and "de_port de = in_port (host_order P) hi' lo'"
    and "24 < sz"
  shows "get_pi P (Some se) (Some buf) sz st =
           ((0, Some (BuildServiceId (se_protocol se) a b c d (256 * unat hi + unat lo))), st) \<and>
         get_ti P (Some de) (Some buf') sz st =
           ((0, Some (BuildDestinationId a' b' c' d' (256 * unat hi' + unat lo'))), st)"
proof -
  have "\<not> sz \<le> length (format_pi P se)"
    using format_pi_length [of P se] assms(6) by simp
  moreover have "\<not> sz \<le> length (format_ti P de)"
    using format_ti_length [of P de] assms(6) by simp
  ultimately show ?thesis
    using format_pi_Build [OF assms(1-3)] format_ti_Build [OF assms(4,5)]
    by (simp add: get_pi_cases get_ti_cases)
qed

theorem identifier_format_witness:
  "get_pi (fixture_platform Little_endian 64) (Some (fixture_service Little_endian IPPROTO_TCP 1))
     (Some []) 64 initial_state = ((0, Some ''10.0.0.1_TCP80''), initial_state) \<and>
   get_ti (fixture_platform Little_endian 64) (Some (fixture_dest Little_endian))
     (Some []) 64 initial_state = ((0, Some ''10.0.0.2_8080''), initial_state)"
  using identifier_format [of "fixture_service Little_endian IPPROTO_TCP 1"
      "fixture_platform Little_endian 64" 10 0 0 1 0 80 "fixture_dest Little_endian" 10 0 0 2 31 144
      64 "[]" initial_state "[]"]
  by (simp add: fixture_service_def fixture_platform_def fixture_dest_def BuildServiceId_def
      BuildDestinationId_def dotted_decimal_def protocol_name_def show_nat_eval
      IPPROTO_TCP_def IPPROTO_UDP_def)

section \<open>Claims about the identifier builders\<close>

lemma get_pi_success:
  assumes "get_pi P (Some se) (Some buf) sz st = ((0, Some s), st')"
  shows "s = format_pi P se"
  using assms by (simp add: get_pi_cases split: if_splits)

lemma get_ti_success:
  assumes "get_ti P (Some de) (Some buf) sz st = ((0, Some t), st')"
  shows "t = format_ti P de"
  using assms by (simp add: get_ti_cases split: if_splits)

text \<open>
  C2. A service entry is valid when its protocol is TCP or UDP (the data model of the
  specification). Two distinct (protocol, address, port) triples of valid entries never
  get the same identifier from \<open>get_pi\<close>, and two destination entries get the same
  identifier from \<open>get_ti\<close> exactly when they agree on the address and on the port,
  so distinct (address, port) pairs never collide. The first conjunct says more: two
  service identifiers are equal exactly when the entries agree on the address, on the
  port and on whether the protocol is TCP.
\<close>

theorem identifiers_injective:
  assumes "get_pi P (Some se) (Some buf) sz st = ((0, Some s), st1)"
    and "get_pi P (Some se') (Some buf') sz' st' = ((0, Some s'), st1')"
    and "get_ti P (Some de) (Some tbuf) tz tst = ((0, Some t), tst1)"
    and "get_ti P (Some de') (Some tbuf') tz' tst' = ((0, Some t'), tst1')"
  shows "(s = s' \<longleftrightarrow>
            se_addr se = se_addr se' \<and> se_port se = se_port se' \<and>
            (se_protocol se = IPPROTO_TCP \<longleftrightarrow> se_protocol se' = IPPROTO_TCP)) \<and>
         (se_protocol se \<in> {IPPROTO_TCP, IPPROTO_UDP} \<and>
          se_protocol se' \<in> {IPPROTO_TCP, IPPROTO_UDP} \<and>
          (se_protocol se, se_addr se, se_port se) \<noteq> (se_protocol se', se_addr se', se_port se')
            \<longrightarrow> s \<noteq> s') \<and>
         (t = t' \<longleftrightarrow> de_addr de = de_addr de' \<and> de_port de = de_port de')"
proof -
  have s: "s = format_pi P se" and s': "s' = format_pi P se'"
    using assms(1,2) by (auto dest: get_pi_success)
  have t: "t = format_ti P de" and t': "t' = format_ti P de'"
    using assms(3,4) by (auto dest: get_ti_success)
  show ?thesis
    unfolding s s' t t' format_pi_eq_iff format_ti_eq_iff
    by (auto simp: IPPROTO_TCP_def IPPROTO_UDP_def)
qed

theorem identifiers_injective_witness:
  "get_pi (fixture_platform Big_endian 64) (Some (fixture_service Big_endian IPPROTO_TCP 1))
     (Some []) 64 initial_state = ((0, Some ''10.0.0.1_TCP80''), initial_state) \<and>
   get_pi (fixture_platform Big_endian 64) (Some (fixture_service Big_endian IPPROTO_UDP 1))
     (Some []) 64 initial_state = ((0, Some ''10.0.0.1_UDP80''), initial_state) \<and>
   get_ti (fixture_platform Big_endian 64) (Some (fixture_dest Big_endian))
     (Some []) 64 initial_state = ((0, Some ''10.0.0.2_8080''), initial_state) \<and>
   ''10.0.0.1_TCP80'' \<noteq> ''10.0.0.1_UDP80''"
proof -
  have h1: "get_pi (fixture_platform Big_endian 64)
      (Some (fixture_service Big_endian IPPROTO_TCP 1)) (Some []) 64 initial_state =
      ((0, Some ''10.0.0.1_TCP80''), initial_state)"
    by (simp add: get_pi_cases fixture_ids)
  have h2: "get_pi (fixture_platform Big_endian 64)
      (Some (fixture_service Big_endian IPPROTO_UDP 1)) (Some []) 64 initial_state =
      ((0, Some ''10.0.0.1_UDP80''), initial_state)"
    by (simp add: get_pi_cases fixture_ids)
  have h3: "get_ti (fixture_platform Big_endian 64) (Some (fixture_dest Big_endian))
      (Some []) 64 initial_state = ((0, Some ''10.0.0.2_8080''), initial_state)"
    by (simp add: get_ti_cases fixture_ids)
  show ?thesis
    using identifiers_injective [OF h1 h2 h3 h3] h1 h2 h3
    by (simp add: fixture_service_def IPPROTO_TCP_def IPPROTO_UDP_def)
qed

section \<open>The two table fetches and the read cycle\<close>

lemma ipvs_get_services_fields [simp]:
  "dispatched (snd (ipvs_get_services P W st)) = dispatched st"
  "ipvs_info (snd (ipvs_get_services P W st)) = ipvs_info st"
  by (simp_all add: ipvs_get_services_def Let_def split: sum.splits)

lemma ipvs_get_services_result:
  "fst (ipvs_get_services P W st) =
     (if \<not> malloc_ok W (services_len P (gi_num_services (ipvs_info st))) then Inl (Exit 3)
      else case getsockopt_services W (services_len P (gi_num_services (ipvs_info st)))
                  (gi_num_services (ipvs_info st)) of
             Inl e \<Rightarrow> Inr None
           | Inr ret \<Rightarrow> Inr (Some ret))"
  by (simp add: ipvs_get_services_def Let_def split: sum.splits)

lemma ipvs_get_services_calls:
  "calls (snd (ipvs_get_services P W st)) =
     calls st @
     Malloc (services_len P (gi_num_services (ipvs_info st))) #
     (if \<not> malloc_ok W (services_len P (gi_num_services (ipvs_info st))) then []
      else Getsockopt_services (services_len P (gi_num_services (ipvs_info st)))
             (gi_num_services (ipvs_info st)) #
           (case getsockopt_services W (services_len P (gi_num_services (ipvs_info st)))
                   (gi_num_services (ipvs_info st)) of
              Inl e \<Rightarrow> [Free]
            | Inr ret \<Rightarrow> []))"
  by (simp add: ipvs_get_services_def Let_def split: sum.splits)

lemma ipvs_get_dests_calls:
  "calls (snd (ipvs_get_dests P W se st)) =
     calls st @
     Malloc (dests_len P (se_num_dests se)) #
     (if \<not> malloc_ok W (dests_len P (se_num_dests se)) then []
      else Getsockopt_dests (dests_len P (se_num_dests se)) (dests_request se) #
           (case getsockopt_dests W (dests_len P (se_num_dests se)) (dests_request se) of
              Inl e \<Rightarrow> [Free]
            | Inr ret \<Rightarrow> []))"
  by (simp add: ipvs_get_dests_def Let_def split: sum.splits)

lemma cipvs_submit_service_info [simp]:
  "ipvs_info (snd (cipvs_submit_service P W se st)) = ipvs_info st"
  by (auto simp: cipvs_submit_service_unfold Let_def
      split: sum.splits option.splits prod.splits dest!: submit_dests_loop_uptD(3))

lemma submit_services_loop_info [simp]:
  "ipvs_info (snd (submit_services_loop P W tab ixs st)) = ipvs_info st"
proof (induction ixs arbitrary: st)
  case Nil
  then show ?case by simp
next
  case (Cons i ixs)
  show ?case
  proof (cases "cipvs_submit_service P W (tab ! i) st")
    case (Pair r st1)
    then have "ipvs_info st1 = ipvs_info st"
      using cipvs_submit_service_info [of P W "tab ! i" st] by simp
    with Pair Cons.IH [of st1] show ?thesis
      by (simp split: sum.splits)
  qed
qed

lemma cipvs_read_info [simp]: "ipvs_info (snd (cipvs_read P W st)) = ipvs_info st"
proof (cases "ipvs_get_services P W st")
  case (Pair r st1)
  then have i: "ipvs_info st1 = ipvs_info st"
    using ipvs_get_services_fields(2) [of P W st] by simp
  show ?thesis
  proof (cases r)
    case (Inl f)
    with Pair i show ?thesis by (simp add: cipvs_read_def)
  next
    case (Inr ret)
    show ?thesis
    proof (cases ret)
      case None
      with Pair Inr i show ?thesis by (simp add: cipvs_read_def)
    next
      case (Some services)
      obtain r2 st2 where l: "submit_services_loop P W (gs_entrytable services)
          [0 ..< unat (gs_num_services services)] st1 = (r2, st2)"
        by (cases "submit_services_loop P W (gs_entrytable services)
          [0 ..< unat (gs_num_services services)] st1")
      then have "ipvs_info st2 = ipvs_info st1"
        using submit_services_loop_info [of P W "gs_entrytable services"
            "[0 ..< unat (gs_num_services services)]" st1] by simp
      with Pair Inr Some i l show ?thesis
        by (simp add: cipvs_read_def split: sum.splits)
    qed
  qed
qed

lemma read_cycles_info [simp]: "ipvs_info (read_cycles P Ws st) = ipvs_info st"
proof (induction Ws arbitrary: st)
  case Nil
  then show ?case by simp
next
  case (Cons W Ws)
  show ?case
  proof (cases "cipvs_read P W st")
    case (Pair r st1)
    then have "ipvs_info st1 = ipvs_info st"
      using cipvs_read_info [of P W st] by simp
    with Pair Cons.IH [of st1] show ?thesis
      by (simp split: sum.splits)
  qed
qed

lemma cipvs_read_fetch_failed:
  assumes "fst (ipvs_get_services P W st) = Inr None"
  shows "cipvs_read P W st = (Inr (- 1), snd (ipvs_get_services P W st))"
  using assms by (cases "ipvs_get_services P W st") (simp add: cipvs_read_def)

lemma cipvs_read_exit:
  assumes "fst (ipvs_get_services P W st) = Inl f"
  shows "cipvs_read P W st = (Inl f, snd (ipvs_get_services P W st))"
  using assms by (cases "ipvs_get_services P W st") (simp add: cipvs_read_def)

section \<open>Claims about the service table fetch\<close>

lemma fixture_world_fields [simp]:
  "malloc_ok (fixture_world s d) len = True"
  "getsockopt_services (fixture_world s d) len n = s"
  "getsockopt_dests (fixture_world s d) len req = d req"
  "getsockopt_info (fixture_world s d) =
     Inr \<lparr>gi_version = 65536, gi_size = 4096, gi_num_services = 1\<rparr>"
  "sys_socket (fixture_world s d) = Inr 3"
  "time_now (fixture_world s d) = 1000"
  "stack_garbage (fixture_world s d) = []"
  by (simp_all add: fixture_world_def)

lemma initial_state_fields [simp]:
  "ipvs_info initial_state = \<lparr>gi_version = 0, gi_size = 0, gi_num_services = 0\<rparr>"
  "dispatched initial_state = []"
  "logged initial_state = []"
  "calls initial_state = []"
  by (simp_all add: initial_state_def)

text \<open>
  C5. When the allocation succeeds and the kernel refuses the service table request,
  \<open>cipvs_read\<close> returns \<open>-1\<close> to the daemon, the process goes on, and no value list
  has been dispatched.
\<close>

theorem service_fetch_failure:
  assumes "malloc_ok W (services_len P (gi_num_services (ipvs_info st)))"
    and "getsockopt_services W (services_len P (gi_num_services (ipvs_info st)))
           (gi_num_services (ipvs_info st)) = Inl e"
  shows "fst (cipvs_read P W st) = Inr (- 1) \<and>
         dispatched (snd (cipvs_read P W st)) = dispatched st \<and>
         emitted st (snd (cipvs_read P W st)) = []"
proof -
  have "fst (ipvs_get_services P W st) = Inr None"
    using assms by (simp add: ipvs_get_services_result)
  from cipvs_read_fetch_failed [OF this] show ?thesis
    by (simp add: emitted_def)
qed

theorem service_fetch_failure_witness:
  "malloc_ok no_table_world (services_len (fixture_platform Little_endian 64) 0) \<and>
   getsockopt_services no_table_world (services_len (fixture_platform Little_endian 64) 0) 0 =
     Inl ESRCH \<and>
   fst (cipvs_read (fixture_platform Little_endian 64) no_table_world initial_state) = Inr (- 1) \<and>
   dispatched (snd (cipvs_read (fixture_platform Little_endian 64) no_table_world initial_state)) = []"
  using service_fetch_failure [of no_table_world "fixture_platform Little_endian 64"
      initial_state ESRCH]
  by (simp add: no_table_world_def)

text \<open>
  C6. When \<open>malloc\<close> returns NULL for the request buffer, \<open>ipvs_get_services\<close> and
  \<open>ipvs_get_dests\<close> call \<open>exit (3)\<close>: the result is the end of the process, not the
  NULL pointer that reports a failed request. The exit goes through
  \<open>cipvs_submit_service\<close>, through the loop over the services, and through
  \<open>cipvs_read\<close>.
\<close>

theorem allocation_failure_is_fatal:
  "(\<not> malloc_ok W (services_len P (gi_num_services (ipvs_info st))) \<longrightarrow>
      fst (ipvs_get_services P W st) = Inl (Exit 3) \<and>
      fst (cipvs_read P W st) = Inl (Exit 3)) \<and>
   (\<not> malloc_ok W (dests_len P (se_num_dests se)) \<longrightarrow>
      fst (ipvs_get_dests P W se st) = Inl (Exit 3) \<and>
      fst (cipvs_submit_service P W se st) = Inl (Exit 3)) \<and>
   (i < length tab \<and> \<not> malloc_ok W (dests_len P (se_num_dests (tab ! i))) \<longrightarrow>
      fst (submit_services_loop P W tab (i # rest) st) = Inl (Exit 3))"
proof (intro conjI impI)
  assume a: "\<not> malloc_ok W (services_len P (gi_num_services (ipvs_info st)))"
  then show g: "fst (ipvs_get_services P W st) = Inl (Exit 3)"
    by (simp add: ipvs_get_services_result)
  from cipvs_read_exit [OF g] show "fst (cipvs_read P W st) = Inl (Exit 3)"
    by simp
next
  assume "\<not> malloc_ok W (dests_len P (se_num_dests se))"
  then show "fst (ipvs_get_dests P W se st) = Inl (Exit 3)"
    and "fst (cipvs_submit_service P W se st) = Inl (Exit 3)"
    by (simp_all add: ipvs_get_dests_result cipvs_submit_service_result)
next
  assume a: "i < length tab \<and> \<not> malloc_ok W (dests_len P (se_num_dests (tab ! i)))"
  then have "fst (cipvs_submit_service P W (tab ! i) st) = Inl (Exit 3)"
    by (simp add: cipvs_submit_service_result)
  with a show "fst (submit_services_loop P W tab (i # rest) st) = Inl (Exit 3)"
    by (cases "cipvs_submit_service P W (tab ! i) st") simp
qed

theorem allocation_failure_is_fatal_witness:
  "\<not> malloc_ok out_of_memory_world (services_len (fixture_platform Little_endian 64) 0) \<and>
   \<not> malloc_ok out_of_memory_world (dests_len (fixture_platform Little_endian 64) 1) \<and>
   fst (ipvs_get_services (fixture_platform Little_endian 64) out_of_memory_world initial_state) =
     Inl (Exit 3) \<and>
   fst (cipvs_read (fixture_platform Little_endian 64) out_of_memory_world initial_state) =
     Inl (Exit 3) \<and>
   fst (ipvs_get_dests (fixture_platform Little_endian 64) out_of_memory_world
          (fixture_service Little_endian IPPROTO_TCP 1) initial_state) = Inl (Exit 3) \<and>
   fst (cipvs_submit_service (fixture_platform Little_endian 64) out_of_memory_world
          (fixture_service Little_endian IPPROTO_TCP 1) initial_state) = Inl (Exit 3) \<and>
   fst (submit_services_loop (fixture_platform Little_endian 64) out_of_memory_world
          [fixture_service Little_endian IPPROTO_TCP 1] [0] initial_state) = Inl (Exit 3)"
  using allocation_failure_is_fatal [of out_of_memory_world "fixture_platform Little_endian 64"
      initial_state "fixture_service Little_endian IPPROTO_TCP 1" 0
      "[fixture_service Little_endian IPPROTO_TCP 1]" "[]"]
  by (simp add: out_of_memory_world_def fixture_service_def)

text \<open>
  C3, as the code has it. \<open>cipvs_init\<close> stores the answer of the global information
  request in \<open>ipvs_info\<close>; no read cycle changes \<open>ipvs_info\<close>; and every service table
  fetch, after any number of read cycles in any worlds, asks \<open>malloc\<close> for the header
  plus as many entries as that one answer announced, and sends the same count to the
  kernel.
\<close>

theorem service_count_fixed_at_init:
  assumes "cipvs_init P W0 st0 = (0, st1)"
  shows "getsockopt_info W0 = Inr (ipvs_info st1) \<and>
         ipvs_info (read_cycles P Ws st1) = ipvs_info st1 \<and>
         ipvs_info (snd (ipvs_get_services P W (read_cycles P Ws st1))) = ipvs_info st1 \<and>
         calls (snd (ipvs_get_services P W (read_cycles P Ws st1))) =
           calls (read_cycles P Ws st1) @
           Malloc (services_len P (gi_num_services (ipvs_info st1))) #
           (if \<not> malloc_ok W (services_len P (gi_num_services (ipvs_info st1))) then []
            else Getsockopt_services (services_len P (gi_num_services (ipvs_info st1)))
                   (gi_num_services (ipvs_info st1)) #
                 (case getsockopt_services W (services_len P (gi_num_services (ipvs_info st1)))
                         (gi_num_services (ipvs_info st1)) of
                    Inl e \<Rightarrow> [Free]
                  | Inr ret \<Rightarrow> []))"
proof -
  have "getsockopt_info W0 = Inr (ipvs_info st1)"
    using assms by (auto simp: cipvs_init_def Let_def record_call_def split: sum.splits)
  then show ?thesis
    using ipvs_get_services_calls [of P W "read_cycles P Ws st1"] by simp
qed

theorem service_count_fixed_at_init_witness:
  "fst (cipvs_init (fixture_platform Little_endian 64) empty_table_world initial_state) = 0 \<and>
   gi_num_services (ipvs_info (read_cycles (fixture_platform Little_endian 64)
       [empty_table_world, empty_table_world]
       (snd (cipvs_init (fixture_platform Little_endian 64) empty_table_world initial_state)))) = 1"
proof -
  have h: "cipvs_init (fixture_platform Little_endian 64) empty_table_world initial_state =
      (0, snd (cipvs_init (fixture_platform Little_endian 64) empty_table_world initial_state))"
    by (simp add: cipvs_init_def empty_table_world_def Let_def)
  show ?thesis
    using service_count_fixed_at_init [OF h, of "[empty_table_world, empty_table_world]"
        empty_table_world]
    by (simp add: cipvs_init_def empty_table_world_def Let_def)
qed

text \<open>
  C3 as stated fails. After an initialization that announced one service, a read cycle
  fetched a service table whose count is 0; the next fetch still asks for a buffer of
  one entry (112 bytes, not 8) and sends the count 1.
\<close>

theorem service_count_not_refreshed:
  "gi_num_services (ipvs_info
     (snd (cipvs_init (fixture_platform Little_endian 64) empty_table_world initial_state))) = 1 \<and>
   fst (ipvs_get_services (fixture_platform Little_endian 64) empty_table_world
     (snd (cipvs_init (fixture_platform Little_endian 64) empty_table_world initial_state))) =
     Inr (Some \<lparr>gs_num_services = 0, gs_entrytable = []\<rparr>) \<and>
   fst (cipvs_read (fixture_platform Little_endian 64) empty_table_world
     (snd (cipvs_init (fixture_platform Little_endian 64) empty_table_world initial_state))) =
     Inr 0 \<and>
   drop 5 (calls (snd (ipvs_get_services (fixture_platform Little_endian 64) empty_table_world
     (snd (cipvs_read (fixture_platform Little_endian 64) empty_table_world
        (snd (cipvs_init (fixture_platform Little_endian 64) empty_table_world
           initial_state))))))) =
     [Malloc 112, Getsockopt_services 112 1] \<and>
   services_len (fixture_platform Little_endian 64) 0 = 8"
  by (simp add: cipvs_init_def cipvs_read_def ipvs_get_services_def empty_table_world_def
      services_len_def fixture_platform_def record_call_def Let_def initial_state_def)

section \<open>The read cycle by its parts\<close>

lemma submit_services_loop_Cons:
  assumes "i < length tab"
  shows "fst (submit_services_loop P W tab (i # rest) st) =
           (case fst (cipvs_submit_service P W (tab ! i) st) of
              Inl f \<Rightarrow> Inl f
            | Inr u \<Rightarrow> fst (submit_services_loop P W tab rest
                              (snd (cipvs_submit_service P W (tab ! i) st))))"
    and "dispatched (snd (submit_services_loop P W tab (i # rest) st)) =
           (case fst (cipvs_submit_service P W (tab ! i) st) of
              Inl f \<Rightarrow> dispatched st @ service_samples P W (tab ! i)
            | Inr u \<Rightarrow> dispatched (snd (submit_services_loop P W tab rest
                              (snd (cipvs_submit_service P W (tab ! i) st)))))"
  using assms cipvs_submit_service_dispatched [of P W "tab ! i" st]
  by (cases "cipvs_submit_service P W (tab ! i) st"; simp split: sum.splits)+

lemma cipvs_read_parts:
  "fst (cipvs_read P W st) =
     (case fst (ipvs_get_services P W st) of
        Inl f \<Rightarrow> Inl f
      | Inr None \<Rightarrow> Inr (- 1)
      | Inr (Some sv) \<Rightarrow>
          (case fst (submit_services_loop P W (gs_entrytable sv)
                       [0 ..< unat (gs_num_services sv)] (snd (ipvs_get_services P W st))) of
             Inl f \<Rightarrow> Inl f
           | Inr u \<Rightarrow> Inr 0))"
  "dispatched (snd (cipvs_read P W st)) =
     (case fst (ipvs_get_services P W st) of
        Inl f \<Rightarrow> dispatched st
      | Inr None \<Rightarrow> dispatched st
      | Inr (Some sv) \<Rightarrow>
          dispatched (snd (submit_services_loop P W (gs_entrytable sv)
                             [0 ..< unat (gs_num_services sv)] (snd (ipvs_get_services P W st)))))"
proof -
  obtain r st1 where g: "ipvs_get_services P W st = (r, st1)"
    by (cases "ipvs_get_services P W st")
  then have d: "dispatched st1 = dispatched st"
    using ipvs_get_services_fields(1) [of P W st] by simp
  show "fst (cipvs_read P W st) =
     (case fst (ipvs_get_services P W st) of
        Inl f \<Rightarrow> Inl f
      | Inr None \<Rightarrow> Inr (- 1)
      | Inr (Some sv) \<Rightarrow>
          (case fst (submit_services_loop P W (gs_entrytable sv)
                       [0 ..< unat (gs_num_services sv)] (snd (ipvs_get_services P W st))) of
             Inl f \<Rightarrow> Inl f
           | Inr u \<Rightarrow> Inr 0))"
    using g by (simp add: cipvs_read_def split: sum.splits option.splits prod.splits)
  show "dispatched (snd (cipvs_read P W st)) =
     (case fst (ipvs_get_services P W st) of
        Inl f \<Rightarrow> dispatched st
      | Inr None \<Rightarrow> dispatched st
      | Inr (Some sv) \<Rightarrow>
          dispatched (snd (submit_services_loop P W (gs_entrytable sv)
                             [0 ..< unat (gs_num_services sv)] (snd (ipvs_get_services P W st)))))"
    using g d by (simp add: cipvs_read_def split: sum.splits option.splits prod.splits)
qed

lemma emitted_append [simp]: "dispatched st' = dispatched st @ new \<Longrightarrow> emitted st st' = new"
  by (simp add: emitted_def)

section \<open>Claims about one read cycle\<close>

lemma fixture_platform_fields [simp]:
  "DATA_MAX_NAME_LEN (fixture_platform bo n) = n"
  "host_order (fixture_platform bo n) = bo"
  by (simp_all add: fixture_platform_def)

lemma fixture_service_fields [simp]:
  "se_stats (fixture_service bo pr d) = fixture_stats"
  "se_num_dests (fixture_service bo pr d) = 1"
  "se_addr (fixture_service bo pr d) = in_addr bo 10 0 0 d"
  "se_protocol (fixture_service bo pr d) = pr"
  by (simp_all add: fixture_service_def)

lemma fixture_dest_fields [simp]: "de_stats (fixture_dest bo) = fixture_stats"
  by (simp add: fixture_dest_def)

lemma in_addr_inj:
  "in_addr bo a b c d = in_addr bo a' b' c' d' \<longleftrightarrow> a = a' \<and> b = b' \<and> c = c' \<and> d = d'"
  by (metis addr_byte_in_addr)

lemma round_trip_parts:
  "fst (cipvs_read (fixture_platform bo 64) (round_trip_world bo) st) = Inr 0"
  "dispatched (snd (cipvs_read (fixture_platform bo 64) (round_trip_world bo) st)) =
     dispatched st @
     stats_samples (fixture_platform bo 64) (round_trip_world bo)
       ''10.0.0.1_TCP80'' ''total'' fixture_stats @
     stats_samples (fixture_platform bo 64) (round_trip_world bo)
       ''10.0.0.1_TCP80'' ''10.0.0.2_8080'' fixture_stats"
proof -
  let ?P = "fixture_platform bo 64" and ?W = "round_trip_world bo"
  let ?se = "fixture_service bo IPPROTO_TCP 1"
  have g: "fst (ipvs_get_services ?P ?W st) =
      Inr (Some \<lparr>gs_num_services = 1, gs_entrytable = [?se]\<rparr>)"
    by (simp add: ipvs_get_services_result round_trip_world_def)
  have r: "fst (cipvs_submit_service ?P ?W ?se st') = Inr ()" for st'
    by (simp add: cipvs_submit_service_result round_trip_world_def fixture_ids one_dest_def)
  have s: "service_samples ?P ?W ?se =
      stats_samples ?P ?W ''10.0.0.1_TCP80'' ''total'' fixture_stats @
      stats_samples ?P ?W ''10.0.0.1_TCP80'' ''10.0.0.2_8080'' fixture_stats"
    by (simp add: service_samples_def dest_samples_def round_trip_world_def fixture_ids
        one_dest_def)
  show "fst (cipvs_read ?P ?W st) = Inr 0"
    by (simp add: cipvs_read_parts g submit_services_loop_Cons r
        del: submit_services_loop.simps(2))
  have "dispatched (snd (cipvs_read ?P ?W st)) = dispatched st @ service_samples ?P ?W ?se"
    by (simp add: cipvs_read_parts g submit_services_loop_Cons r cipvs_submit_service_dispatched
        del: submit_services_loop.simps(2))
  then show "dispatched (snd (cipvs_read ?P ?W st)) =
     dispatched st @
     stats_samples ?P ?W ''10.0.0.1_TCP80'' ''total'' fixture_stats @
     stats_samples ?P ?W ''10.0.0.1_TCP80'' ''10.0.0.2_8080'' fixture_stats"
    by (simp only: s)
qed

text \<open>
  C9. With an identifier capacity of 64 and either byte order, when the kernel answers
  with the one TCP service 10.0.0.1 port 80 and its one real server 10.0.0.2 port 8080,
  both with the counters 5, 10, 20, 100, 200, the read cycle returns 0 and dispatches, in
  this order, \<open>connections\<close> (5), \<open>if_packets\<close> (10, 20) and \<open>if_octets\<close> (100, 200)
  under the plugin instance \<open>10.0.0.1_TCP80\<close> with type instance \<open>total\<close>, then the
  same three under the type instance \<open>10.0.0.2_8080\<close>.
\<close>

theorem round_trip:
  "fst (cipvs_read (fixture_platform bo 64) (round_trip_world bo) st) = Inr 0 \<and>
   emitted st (snd (cipvs_read (fixture_platform bo 64) (round_trip_world bo) st)) =
     [sample (fixture_platform bo 64) (round_trip_world bo)
        ''connections'' ''10.0.0.1_TCP80'' ''total'' [5],
      sample (fixture_platform bo 64) (round_trip_world bo)
        ''if_packets'' ''10.0.0.1_TCP80'' ''total'' [10, 20],
      sample (fixture_platform bo 64) (round_trip_world bo)
        ''if_octets'' ''10.0.0.1_TCP80'' ''total'' [100, 200],
      sample (fixture_platform bo 64) (round_trip_world bo)
        ''connections'' ''10.0.0.1_TCP80'' ''10.0.0.2_8080'' [5],
      sample (fixture_platform bo 64) (round_trip_world bo)
        ''if_packets'' ''10.0.0.1_TCP80'' ''10.0.0.2_8080'' [10, 20],
      sample (fixture_platform bo 64) (round_trip_world bo)
        ''if_octets'' ''10.0.0.1_TCP80'' ''10.0.0.2_8080'' [100, 200]]"
proof -
  let ?P = "fixture_platform bo 64" and ?W = "round_trip_world bo"
  have "emitted st (snd (cipvs_read ?P ?W st)) =
      stats_samples ?P ?W ''10.0.0.1_TCP80'' ''total'' fixture_stats @
      stats_samples ?P ?W ''10.0.0.1_TCP80'' ''10.0.0.2_8080'' fixture_stats"
    by (rule emitted_append) (rule round_trip_parts(2))
  then show ?thesis
    by (simp add: round_trip_parts(1) stats_samples_def fixture_stats_def)
qed

lemma dest_fetch_failure_null_deref:
  assumes "malloc_ok W (dests_len P (se_num_dests se))"
    and "length (format_pi P se) < DATA_MAX_NAME_LEN P"
    and "getsockopt_dests W (dests_len P (se_num_dests se)) (dests_request se) = Inl e"
  shows "fst (cipvs_submit_service P W se st) = Inl Null_deref"
    and "dispatched (snd (cipvs_submit_service P W se st)) =
           dispatched st @ stats_samples P W (format_pi P se) ''total'' (se_stats se)"
  using assms
  by (simp_all add: cipvs_submit_service_result cipvs_submit_service_dispatched
      service_samples_def)

text \<open>
  C1 fails on the code. The kernel lists the services 10.0.0.1 and 10.0.0.3, and the
  destination request for 10.0.0.1 fails: \<open>ipvs_get_dests\<close> returns NULL,
  \<open>cipvs_submit_service\<close> dispatches the three value lists of the service and then
  reads \<open>dests->num_dests\<close>. The cycle ends in the dereference of the NULL pointer, and
  nothing is dispatched for 10.0.0.3, whose own requests would all have succeeded.
\<close>

theorem dest_fetch_failure_crashes:
  "fst (cipvs_read (fixture_platform bo 64) (stale_service_world bo) st) = Inl Null_deref \<and>
   emitted st (snd (cipvs_read (fixture_platform bo 64) (stale_service_world bo) st)) =
     [sample (fixture_platform bo 64) (stale_service_world bo)
        ''connections'' ''10.0.0.1_TCP80'' ''total'' [5],
      sample (fixture_platform bo 64) (stale_service_world bo)
        ''if_packets'' ''10.0.0.1_TCP80'' ''total'' [10, 20],
      sample (fixture_platform bo 64) (stale_service_world bo)
        ''if_octets'' ''10.0.0.1_TCP80'' ''total'' [100, 200]] \<and>
   fst (cipvs_submit_service (fixture_platform bo 64) (stale_service_world bo)
          (fixture_service bo IPPROTO_TCP 3) st) = Inr () \<and>
   length (service_samples (fixture_platform bo 64) (stale_service_world bo)
             (fixture_service bo IPPROTO_TCP 3)) = 6"
proof -
  let ?P = "fixture_platform bo 64" and ?W = "stale_service_world bo"
  let ?s1 = "fixture_service bo IPPROTO_TCP 1" and ?s3 = "fixture_service bo IPPROTO_TCP 3"
  have g: "fst (ipvs_get_services ?P ?W st) =
      Inr (Some \<lparr>gs_num_services = 2, gs_entrytable = [?s1, ?s3]\<rparr>)"
    by (simp add: ipvs_get_services_result stale_service_world_def)
  have d1: "getsockopt_dests ?W len (dests_request ?s1) = Inl ESRCH" for len
    by (simp add: stale_service_world_def stale_dests_def dests_request_def)
  have d3: "getsockopt_dests ?W len (dests_request ?s3) = one_dest bo (dests_request ?s3)"
    for len
    by (simp add: stale_service_world_def stale_dests_def dests_request_def in_addr_inj)
  have m: "malloc_ok ?W len" for len
    by (simp add: stale_service_world_def)
  have r1: "fst (cipvs_submit_service ?P ?W ?s1 st') = Inl Null_deref" for st'
    by (rule dest_fetch_failure_null_deref(1) [OF m _ d1]) (simp add: fixture_ids)
  have e1: "dispatched (snd (cipvs_submit_service ?P ?W ?s1 st')) =
      dispatched st' @ stats_samples ?P ?W ''10.0.0.1_TCP80'' ''total'' fixture_stats" for st'
    using dest_fetch_failure_null_deref(2) [OF m _ d1, where st = st'] by (simp add: fixture_ids)
  have "fst (cipvs_read ?P ?W st) = Inl Null_deref"
    by (simp add: cipvs_read_parts g upt_rec submit_services_loop_Cons r1
        del: submit_services_loop.simps(2))
  moreover have "dispatched (snd (cipvs_read ?P ?W st)) =
      dispatched st @ stats_samples ?P ?W ''10.0.0.1_TCP80'' ''total'' fixture_stats"
    using e1 [of st]
    by (simp add: cipvs_read_parts g upt_rec submit_services_loop_Cons r1 service_samples_def
        m d1 fixture_ids del: submit_services_loop.simps(2))
  moreover have "fst (cipvs_submit_service ?P ?W ?s3 st) = Inr ()"
    by (simp add: cipvs_submit_service_result m d3 fixture_ids one_dest_def)
  moreover have "length (service_samples ?P ?W ?s3) = 6"
    by (simp add: service_samples_def m d3 fixture_ids one_dest_def dest_samples_def
        stats_samples_def)
  ultimately show ?thesis
    by (simp add: stats_samples_def fixture_stats_def)
qed

section \<open>Claims about truncated identifiers and about plugin instances\<close>

lemma submit_service_truncated:
  assumes "DATA_MAX_NAME_LEN P \<le> length (format_pi P se)"
    and "malloc_ok W (dests_len P (se_num_dests se))"
  shows "fst (cipvs_submit_service P W se st) = Inr ()"
    and "dispatched (snd (cipvs_submit_service P W se st)) = dispatched st"
    and "logged (snd (cipvs_submit_service P W se st)) =
           logged (snd (ipvs_get_dests P W se st)) @
           [''ipvs: plugin instance truncated: '' @
            (if DATA_MAX_NAME_LEN P = 0 then stack_garbage W
             else take (DATA_MAX_NAME_LEN P - 1) (format_pi P se))]"
  using assms
  by (simp_all add: cipvs_submit_service_result cipvs_submit_service_dispatched
      service_samples_def cipvs_submit_service_unfold ipvs_get_dests_result Let_def
      split: sum.splits)

text \<open>
  C7. An identifier does not fit when its length is not below \<open>DATA_MAX_NAME_LEN\<close>
  (the buffer also holds the final NUL). For such a destination \<open>get_ti\<close> returns
  \<open>-1\<close>, \<open>cipvs_submit_dest\<close> dispatches nothing and logs the truncation, and the
  loop over the destinations goes on with the next index. For such a service, when the
  allocation in \<open>ipvs_get_dests\<close> succeeds, \<open>get_pi\<close> returns \<open>-1\<close>,
  \<open>cipvs_submit_service\<close> returns normally, dispatches nothing (neither for the
  service nor for its destinations), the last log line is the truncation, and the loop
  over the services goes on with the next index.
\<close>

theorem truncation_skips_entity:
  "(DATA_MAX_NAME_LEN P \<le> length (format_ti P de) \<longrightarrow>
      fst (fst (get_ti P (Some de) (Some buf) (DATA_MAX_NAME_LEN P) st)) = - 1 \<and>
      emitted st (cipvs_submit_dest P W pi de st) = [] \<and>
      logged (cipvs_submit_dest P W pi de st) =
        logged st @
        [''ipvs: type instance truncated: '' @
         (if DATA_MAX_NAME_LEN P = 0 then stack_garbage W
          else take (DATA_MAX_NAME_LEN P - 1) (format_ti P de))] \<and>
      (j < length dtab \<and> dtab ! j = de \<longrightarrow>
         submit_dests_loop P W pi dtab (j # drest) st =
         submit_dests_loop P W pi dtab drest (cipvs_submit_dest P W pi de st))) \<and>
   (DATA_MAX_NAME_LEN P \<le> length (format_pi P se) \<and>
    malloc_ok W (dests_len P (se_num_dests se)) \<longrightarrow>
      fst (fst (get_pi P (Some se) (Some buf) (DATA_MAX_NAME_LEN P) st)) = - 1 \<and>
      fst (cipvs_submit_service P W se st) = Inr () \<and>
      emitted st (snd (cipvs_submit_service P W se st)) = [] \<and>
      last (logged (snd (cipvs_submit_service P W se st))) =
        ''ipvs: plugin instance truncated: '' @
        (if DATA_MAX_NAME_LEN P = 0 then stack_garbage W
         else take (DATA_MAX_NAME_LEN P - 1) (format_pi P se)) \<and>
      (i < length tab \<and> tab ! i = se \<longrightarrow>
         submit_services_loop P W tab (i # rest) st =
         submit_services_loop P W tab rest (snd (cipvs_submit_service P W se st))))"
proof (intro conjI impI)
  assume t: "DATA_MAX_NAME_LEN P \<le> length (format_ti P de)"
  then show "fst (fst (get_ti P (Some de) (Some buf) (DATA_MAX_NAME_LEN P) st)) = - 1"
    by (simp add: get_ti_cases)
  from t show "emitted st (cipvs_submit_dest P W pi de st) = []"
    by (simp add: emitted_def dest_samples_def)
  from t show "logged (cipvs_submit_dest P W pi de st) =
        logged st @
        [''ipvs: type instance truncated: '' @
         (if DATA_MAX_NAME_LEN P = 0 then stack_garbage W
          else take (DATA_MAX_NAME_LEN P - 1) (format_ti P de))]"
    by (simp add: cipvs_submit_dest_eq)
  assume "j < length dtab \<and> dtab ! j = de"
  then show "submit_dests_loop P W pi dtab (j # drest) st =
         submit_dests_loop P W pi dtab drest (cipvs_submit_dest P W pi de st)"
    by simp
next
  assume "DATA_MAX_NAME_LEN P \<le> length (format_pi P se) \<and>
    malloc_ok W (dests_len P (se_num_dests se))"
  then have p: "DATA_MAX_NAME_LEN P \<le> length (format_pi P se)"
    and m: "malloc_ok W (dests_len P (se_num_dests se))"
    by simp_all
  from p show "fst (fst (get_pi P (Some se) (Some buf) (DATA_MAX_NAME_LEN P) st)) = - 1"
    by (simp add: get_pi_cases)
  show r: "fst (cipvs_submit_service P W se st) = Inr ()"
    by (rule submit_service_truncated(1) [OF p m])
  show "emitted st (snd (cipvs_submit_service P W se st)) = []"
    using submit_service_truncated(2) [OF p m, of st] by (simp add: emitted_def)
  show "last (logged (snd (cipvs_submit_service P W se st))) =
        ''ipvs: plugin instance truncated: '' @
        (if DATA_MAX_NAME_LEN P = 0 then stack_garbage W
         else take (DATA_MAX_NAME_LEN P - 1) (format_pi P se))"
    by (simp only: submit_service_truncated(3) [OF p m] last_snoc)
  assume "i < length tab \<and> tab ! i = se"
  with r show "submit_services_loop P W tab (i # rest) st =
         submit_services_loop P W tab rest (snd (cipvs_submit_service P W se st))"
    by (cases "cipvs_submit_service P W se st") simp
qed

theorem truncation_skips_entity_witness:
  "DATA_MAX_NAME_LEN (fixture_platform Little_endian 10) \<le>
     length (format_ti (fixture_platform Little_endian 10) (fixture_dest Little_endian)) \<and>
   DATA_MAX_NAME_LEN (fixture_platform Little_endian 10) \<le>
     length (format_pi (fixture_platform Little_endian 10)
               (fixture_service Little_endian IPPROTO_TCP 1)) \<and>
   malloc_ok (round_trip_world Little_endian) (dests_len (fixture_platform Little_endian 10) 1) \<and>
   logged (cipvs_submit_dest (fixture_platform Little_endian 10) (round_trip_world Little_endian)
             ''10.0.0.1_TCP80'' (fixture_dest Little_endian) initial_state) =
     [''ipvs: type instance truncated: 10.0.0.2_''] \<and>
   emitted initial_state
     (cipvs_submit_dest (fixture_platform Little_endian 10) (round_trip_world Little_endian)
        ''10.0.0.1_TCP80'' (fixture_dest Little_endian) initial_state) = [] \<and>
   fst (cipvs_submit_service (fixture_platform Little_endian 10) (round_trip_world Little_endian)
          (fixture_service Little_endian IPPROTO_TCP 1) initial_state) = Inr () \<and>
   emitted initial_state
     (snd (cipvs_submit_service (fixture_platform Little_endian 10)
             (round_trip_world Little_endian)
             (fixture_service Little_endian IPPROTO_TCP 1) initial_state)) = [] \<and>
   last (logged (snd (cipvs_submit_service (fixture_platform Little_endian 10)
             (round_trip_world Little_endian)
             (fixture_service Little_endian IPPROTO_TCP 1) initial_state))) =
     ''ipvs: plugin instance truncated: 10.0.0.1_''"
  using truncation_skips_entity [of "fixture_platform Little_endian 10"
      "fixture_dest Little_endian" "[]" initial_state "round_trip_world Little_endian"
      "''10.0.0.1_TCP80''" 0 "[fixture_dest Little_endian]" "[]"
      "fixture_service Little_endian IPPROTO_TCP 1" 0
      "[fixture_service Little_endian IPPROTO_TCP 1]" "[]"]
  by (simp add: fixture_ids round_trip_world_def)

lemma stats_samples_instances:
  assumes "x \<in> set (stats_samples P W pi ti s)"
  shows "vl_plugin_instance (snd x) = pi \<and> vl_type_instance (snd x) = ti"
  using assms by (auto simp: stats_samples_def sample_def)

lemma service_samples_instances:
  assumes "x \<in> set (service_samples P W se)"
  shows "length (format_pi P se) < DATA_MAX_NAME_LEN P \<and>
         vl_plugin_instance (snd x) = format_pi P se \<and>
         (vl_type_instance (snd x) = ''total'' \<or>
          (\<exists>d de. getsockopt_dests W (dests_len P (se_num_dests se)) (dests_request se) = Inr d \<and>
                  de \<in> set (gd_entrytable d) \<and>
                  length (format_ti P de) < DATA_MAX_NAME_LEN P \<and>
                  vl_type_instance (snd x) = format_ti P de))"
proof -
  let ?total = "stats_samples P W (format_pi P se) ''total'' (se_stats se)"
  from assms have fit: "length (format_pi P se) < DATA_MAX_NAME_LEN P"
    and m: "malloc_ok W (dests_len P (se_num_dests se))"
    by (auto simp: service_samples_def split: if_splits)
  show ?thesis
  proof (cases "getsockopt_dests W (dests_len P (se_num_dests se)) (dests_request se)")
    case (Inl e)
    with assms fit m have "x \<in> set ?total"
      by (simp add: service_samples_def)
    with fit show ?thesis by (auto dest: stats_samples_instances)
  next
    case (Inr d)
    with assms fit m have "x \<in> set ?total \<or>
        (\<exists>de\<in>set (take (unat (gd_num_dests d)) (gd_entrytable d)).
           x \<in> set (dest_samples P W (format_pi P se) de))"
      by (auto simp: service_samples_def)
    then show ?thesis
    proof
      assume "x \<in> set ?total"
      with fit show ?thesis by (auto dest: stats_samples_instances)
    next
      assume "\<exists>de\<in>set (take (unat (gd_num_dests d)) (gd_entrytable d)).
           x \<in> set (dest_samples P W (format_pi P se) de)"
      then obtain de where de: "de \<in> set (gd_entrytable d)"
        and x: "x \<in> set (dest_samples P W (format_pi P se) de)"
        by (auto dest: in_set_takeD)
      from x have l: "length (format_ti P de) < DATA_MAX_NAME_LEN P"
        and "x \<in> set (stats_samples P W (format_pi P se) (format_ti P de) (de_stats de))"
        by (auto simp: dest_samples_def split: if_splits)
      then have "vl_plugin_instance (snd x) = format_pi P se"
        and "vl_type_instance (snd x) = format_ti P de"
        by (auto dest: stats_samples_instances)
      with fit Inr de l show ?thesis by blast
    qed
  qed
qed

lemma submit_services_loop_dispatched:
  "\<exists>new. dispatched (snd (submit_services_loop P W tab ixs st)) = dispatched st @ new \<and>
         (\<forall>x\<in>set new. \<exists>i\<in>set ixs. i < length tab \<and> x \<in> set (service_samples P W (tab ! i)))"
proof (induction ixs arbitrary: st)
  case Nil
  then show ?case by simp
next
  case (Cons i ixs)
  show ?case
  proof (cases "i < length tab")
    case False
    then show ?thesis by simp
  next
    case True
    obtain r st1 where s: "cipvs_submit_service P W (tab ! i) st = (r, st1)"
      by (cases "cipvs_submit_service P W (tab ! i) st")
    then have d: "dispatched st1 = dispatched st @ service_samples P W (tab ! i)"
      using cipvs_submit_service_dispatched [of P W "tab ! i" st] by simp
    show ?thesis
    proof (cases r)
      case (Inl f)
      with True s d show ?thesis by auto
    next
      case (Inr u)
      from Cons.IH [of st1] obtain new where
        n: "dispatched (snd (submit_services_loop P W tab ixs st1)) = dispatched st1 @ new"
        and m: "\<forall>x\<in>set new. \<exists>i\<in>set ixs. i < length tab \<and>
                  x \<in> set (service_samples P W (tab ! i))"
        by blast
      have "dispatched (snd (submit_services_loop P W tab (i # ixs) st)) =
          dispatched st @ (service_samples P W (tab ! i) @ new)"
        using True s Inr n d by simp
      moreover have "\<forall>x\<in>set (service_samples P W (tab ! i) @ new).
          \<exists>k\<in>set (i # ixs). k < length tab \<and> x \<in> set (service_samples P W (tab ! k))"
        using True m by auto
      ultimately show ?thesis by blast
    qed
  qed
qed

lemma cipvs_read_emitted:
  assumes "x \<in> set (emitted st (snd (cipvs_read P W st)))"
  shows "\<exists>sv se. fst (ipvs_get_services P W st) = Inr (Some sv) \<and>
                 se \<in> set (gs_entrytable sv) \<and> x \<in> set (service_samples P W se)"
proof (cases "fst (ipvs_get_services P W st)")
  case (Inl f)
  with assms show ?thesis by (simp add: cipvs_read_parts emitted_def)
next
  case (Inr ret)
  show ?thesis
  proof (cases ret)
    case None
    with Inr assms show ?thesis by (simp add: cipvs_read_parts emitted_def)
  next
    case (Some sv)
    let ?st1 = "snd (ipvs_get_services P W st)"
    let ?ixs = "[0 ..< unat (gs_num_services sv)]"
    from submit_services_loop_dispatched [of P W "gs_entrytable sv" ?ixs ?st1]
    obtain new where
      n: "dispatched (snd (submit_services_loop P W (gs_entrytable sv) ?ixs ?st1)) =
            dispatched ?st1 @ new"
      and m: "\<forall>x\<in>set new. \<exists>i\<in>set ?ixs. i < length (gs_entrytable sv) \<and>
                x \<in> set (service_samples P W (gs_entrytable sv ! i))"
      by blast
    have "dispatched (snd (cipvs_read P W st)) = dispatched st @ new"
      using Inr Some n by (simp add: cipvs_read_parts)
    with assms have "x \<in> set new" by simp
    with m obtain i where "i < length (gs_entrytable sv)"
      and "x \<in> set (service_samples P W (gs_entrytable sv ! i))"
      by blast
    with Inr Some show ?thesis by (auto intro: nth_mem)
  qed
qed

text \<open>
  C8. Every value list dispatched in a read cycle belongs to a service entry of the
  fetched table: its plugin instance is the identifier that \<open>get_pi\<close> builds for that
  entry, and it is either a value list of the service itself (type instance
  \<open>total\<close>) or its type instance is the identifier that \<open>get_ti\<close> builds for an
  entry of the destination table the kernel returned for that service. So every
  destination-level value list carries the identifier of its parent service.
\<close>

theorem destination_samples_under_parent_service:
  assumes "x \<in> set (emitted st (snd (cipvs_read P W st)))"
  shows "\<exists>sv se.
           fst (ipvs_get_services P W st) = Inr (Some sv) \<and> se \<in> set (gs_entrytable sv) \<and>
           (\<forall>buf s. get_pi P (Some se) (Some buf) (DATA_MAX_NAME_LEN P) s =
                      ((0, Some (vl_plugin_instance (snd x))), s)) \<and>
           (vl_type_instance (snd x) = ''total'' \<or>
            (\<exists>d de.
               getsockopt_dests W (dests_len P (se_num_dests se)) (dests_request se) = Inr d \<and>
               de \<in> set (gd_entrytable d) \<and>
               (\<forall>buf s. get_ti P (Some de) (Some buf) (DATA_MAX_NAME_LEN P) s =
                          ((0, Some (vl_type_instance (snd x))), s))))"
proof -
  from cipvs_read_emitted [OF assms] obtain sv se where
    g: "fst (ipvs_get_services P W st) = Inr (Some sv)" and se: "se \<in> set (gs_entrytable sv)"
    and x: "x \<in> set (service_samples P W se)"
    by blast
  from service_samples_instances [OF x] have
    fit: "length (format_pi P se) < DATA_MAX_NAME_LEN P"
    and pi: "vl_plugin_instance (snd x) = format_pi P se"
    and ti: "vl_type_instance (snd x) = ''total'' \<or>
          (\<exists>d de. getsockopt_dests W (dests_len P (se_num_dests se)) (dests_request se) = Inr d \<and>
                  de \<in> set (gd_entrytable d) \<and>
                  length (format_ti P de) < DATA_MAX_NAME_LEN P \<and>
                  vl_type_instance (snd x) = format_ti P de)"
    by blast+
  have "\<forall>buf s. get_pi P (Some se) (Some buf) (DATA_MAX_NAME_LEN P) s =
      ((0, Some (vl_plugin_instance (snd x))), s)"
    using fit pi by (simp add: get_pi_cases)
  moreover have "vl_type_instance (snd x) = ''total'' \<or>
      (\<exists>d de.
         getsockopt_dests W (dests_len P (se_num_dests se)) (dests_request se) = Inr d \<and>
         de \<in> set (gd_entrytable d) \<and>
         (\<forall>buf s. get_ti P (Some de) (Some buf) (DATA_MAX_NAME_LEN P) s =
                    ((0, Some (vl_type_instance (snd x))), s)))"
  proof (rule disjE [OF ti])
    assume "vl_type_instance (snd x) = ''total''"
    then show ?thesis by simp
  next
    assume "\<exists>d de. getsockopt_dests W (dests_len P (se_num_dests se)) (dests_request se) = Inr d \<and>
                  de \<in> set (gd_entrytable d) \<and>
                  length (format_ti P de) < DATA_MAX_NAME_LEN P \<and>
                  vl_type_instance (snd x) = format_ti P de"
    then obtain d de where
      "getsockopt_dests W (dests_len P (se_num_dests se)) (dests_request se) = Inr d"
      "de \<in> set (gd_entrytable d)"
      "\<forall>buf s. get_ti P (Some de) (Some buf) (DATA_MAX_NAME_LEN P) s =
                    ((0, Some (vl_type_instance (snd x))), s)"
      by (auto simp: get_ti_cases)
    then show ?thesis by blast
  qed
  ultimately show ?thesis
    using g se by blast
qed

theorem destination_samples_under_parent_service_witness:
  "sample (fixture_platform Little_endian 64) (round_trip_world Little_endian)
     ''if_octets'' ''10.0.0.1_TCP80'' ''10.0.0.2_8080'' [100, 200] \<in>
     set (emitted initial_state
            (snd (cipvs_read (fixture_platform Little_endian 64)
                    (round_trip_world Little_endian) initial_state))) \<and>
   (\<exists>sv se.
      fst (ipvs_get_services (fixture_platform Little_endian 64)
             (round_trip_world Little_endian) initial_state) = Inr (Some sv) \<and>
      se \<in> set (gs_entrytable sv) \<and>
      get_pi (fixture_platform Little_endian 64) (Some se) (Some []) 64 initial_state =
        ((0, Some ''10.0.0.1_TCP80''), initial_state))"
proof -
  let ?x = "sample (fixture_platform Little_endian 64) (round_trip_world Little_endian)
     ''if_octets'' ''10.0.0.1_TCP80'' ''10.0.0.2_8080'' [100, 200]"
  have h: "?x \<in> set (emitted initial_state
            (snd (cipvs_read (fixture_platform Little_endian 64)
                    (round_trip_world Little_endian) initial_state)))"
    using round_trip_parts(2) [of Little_endian initial_state]
    by (simp add: emitted_def stats_samples_def fixture_stats_def)
  from destination_samples_under_parent_service [OF h] obtain sv se where
    "fst (ipvs_get_services (fixture_platform Little_endian 64)
             (round_trip_world Little_endian) initial_state) = Inr (Some sv)"
    "se \<in> set (gs_entrytable sv)"
    "\<forall>buf s. get_pi (fixture_platform Little_endian 64) (Some se) (Some buf)
        (DATA_MAX_NAME_LEN (fixture_platform Little_endian 64)) s =
        ((0, Some (vl_plugin_instance (snd ?x))), s)"
    by blast
  then have "fst (ipvs_get_services (fixture_platform Little_endian 64)
             (round_trip_world Little_endian) initial_state) = Inr (Some sv) \<and>
      se \<in> set (gs_entrytable sv) \<and>
      get_pi (fixture_platform Little_endian 64) (Some se) (Some []) 64 initial_state =
        ((0, Some ''10.0.0.1_TCP80''), initial_state)"
    by (simp add: sample_def)
  with h show ?thesis by blast
qed

end
